theory Spec2Isabelle
  imports Complex_Main "HOL-Library.AList"
begin

section \<open>Strings of the page\<close>

text \<open>
  A JavaScript string is modelled as a \<open>string\<close>: a list of code units below 256.
  Code units beyond that range (the en and em dash of the title pattern among them) are
  outside the alphabet of the model; on strings inside it the functions below compute
  what the engine computes.
\<close>

definition code :: "char \<Rightarrow> nat" where
  "code c = of_char c"

text \<open>The class \<open>\s\<close> and the characters removed by \<open>trim()\<close>, below 256.\<close>

definition is_ws :: "char \<Rightarrow> bool" where
  "is_ws c = (code c \<in> {9, 10, 11, 12, 13, 32, 160})"

text \<open>The class \<open>\d\<close>.\<close>

definition is_digit :: "char \<Rightarrow> bool" where
  "is_digit c = (48 \<le> code c \<and> code c \<le> 57)"

definition trim :: "string \<Rightarrow> string" where
  "trim s = rev (dropWhile is_ws (rev (dropWhile is_ws s)))"

definition lower_char :: "char \<Rightarrow> char" where
  "lower_char c =
     (if (65 \<le> code c \<and> code c \<le> 90) \<or> (192 \<le> code c \<and> code c \<le> 222 \<and> code c \<noteq> 215)
      then char_of (code c + 32) else c)"

definition toLowerCase :: "string \<Rightarrow> string" where
  "toLowerCase s = map lower_char s"

text \<open>
  The canonical form under which the flag \<open>i\<close> compares two characters: the upper-case
  letter. The two characters below 256 whose upper case lies beyond 255 stay apart from
  every other character, as in the engine.
\<close>

definition canon :: "char \<Rightarrow> char" where
  "canon c =
     (if (97 \<le> code c \<and> code c \<le> 122) \<or> (224 \<le> code c \<and> code c \<le> 254 \<and> code c \<noteq> 247)
      then char_of (code c - 32) else c)"

text \<open>\<open>s.includes(t)\<close>: \<open>t\<close> occurs in \<open>s\<close> as a contiguous block.\<close>

fun str_includes :: "string \<Rightarrow> string \<Rightarrow> bool" where
  "str_includes [] t = (t = [])"
| "str_includes (c # cs) t = (take (length t) (c # cs) = t \<or> str_includes cs t)"

section \<open>The regular expressions of the detector\<close>

text \<open>
  The patterns of the detector are sequences of literal text and \<open>\s*\<close>, with one optional
  group; all carry the flag \<open>i\<close> and none is anchored.
\<close>

datatype atom = Lit string | WsStar

datatype piece = Atom atom | Opt "atom list"

type_synonym pattern = "piece list"

fun match_here :: "atom list \<Rightarrow> string \<Rightarrow> bool" where
  "match_here [] s = True"
| "match_here (Lit l # r) s =
     (length l \<le> length s \<and> map canon (take (length l) s) = map canon l
      \<and> match_here r (drop (length l) s))"
| "match_here (WsStar # r) [] = match_here r []"
| "match_here (WsStar # r) (c # cs) =
     (match_here r (c # cs) \<or> (is_ws c \<and> match_here (WsStar # r) cs))"

fun search :: "atom list \<Rightarrow> string \<Rightarrow> bool" where
  "search as [] = match_here as []"
| "search as (c # cs) = (match_here as (c # cs) \<or> search as cs)"

text \<open>An optional group is taken or left out.\<close>

fun expand :: "pattern \<Rightarrow> atom list list" where
  "expand [] = [[]]"
| "expand (Atom a # ps) = map (\<lambda>r. a # r) (expand ps)"
| "expand (Opt g # ps) = map (\<lambda>r. g @ r) (expand ps) @ expand ps"

text \<open>\<open>pattern.test(s)\<close>.\<close>

definition test :: "pattern \<Rightarrow> string \<Rightarrow> bool" where
  "test p s = list_ex (\<lambda>as. search as s) (expand p)"

definition CHECKOUT_URL_PATTERNS :: "pattern list" where
  "CHECKOUT_URL_PATTERNS =
     [[Atom (Lit ''/checkout'')],
      [Atom (Lit ''/cart'')],
      [Atom (Lit ''/payment'')],
      [Atom (Lit ''/buy'')],
      [Atom (Lit ''/order'')],
      [Atom (Lit ''/gp/buy'')],
      [Atom (Lit ''/gp/cart'')]]"

definition PURCHASE_BUTTON_PATTERNS :: "pattern list" where
  "PURCHASE_BUTTON_PATTERNS =
     [[Atom (Lit ''buy''), Atom WsStar, Atom (Lit ''now'')],
      [Atom (Lit ''add''), Atom WsStar, Atom (Lit ''to''), Atom WsStar, Atom (Lit ''cart'')],
      [Atom (Lit ''place''), Atom WsStar, Opt [Lit ''your'', WsStar], Atom (Lit ''order'')],
      [Atom (Lit ''checkout'')],
      [Atom (Lit ''pay''), Atom WsStar, Atom (Lit ''now'')],
      [Atom (Lit ''complete''), Atom WsStar, Atom (Lit ''purchase'')],
      [Atom (Lit ''submit''), Atom WsStar, Atom (Lit ''order'')],
      [Atom (Lit ''proceed''), Atom WsStar, Atom (Lit ''to''), Atom WsStar, Atom (Lit ''checkout'')],
      [Atom (Lit ''confirm''), Atom WsStar, Atom (Lit ''order'')]]"

section \<open>The page\<close>

text \<open>
  An element carries an identity, the properties the detector reads and its bounding
  box. Numbers are exact rationals: the rounding of binary floating point is not
  modelled.
\<close>

record element =
  eid :: nat
  textContent :: "string option"
  val :: "string option"
  attrs :: "(string \<times> string) list"
  src :: "string option"
  rect_top :: rat
  rect_left :: rat
  rect_width :: rat
  rect_height :: rat

definition getAttribute :: "element \<Rightarrow> string \<Rightarrow> string option" where
  "getAttribute e a = map_of (attrs e) a"

text \<open>
  The document answers selector queries in document order; the selector engine of the
  browser is part of the page.
\<close>

record page =
  href :: string
  hostname :: string
  title :: string
  scrollX :: rat
  scrollY :: rat
  querySelectorAll :: "string \<Rightarrow> element list"

definition querySelector :: "page \<Rightarrow> string \<Rightarrow> element option" where
  "querySelector p sel = (case querySelectorAll p sel of [] \<Rightarrow> None | e # _ \<Rightarrow> Some e)"

text \<open>The operator \<open>||\<close> on strings that may be missing: the first that is non-empty.\<close>

fun or_else :: "string option \<Rightarrow> string option \<Rightarrow> string option" where
  "or_else (Some s) b = (if s = [] then b else Some s)"
| "or_else None b = b"

definition or_empty :: "string option \<Rightarrow> string" where
  "or_empty a = (case a of Some s \<Rightarrow> s | None \<Rightarrow> [])"

section \<open>Scoring\<close>

fun url_loop :: "string \<Rightarrow> pattern list \<Rightarrow> int" where
  "url_loop url [] = 0"
| "url_loop url (pat # pats) = (if test pat url then 30 else url_loop url pats)"

definition getUrlScore :: "page \<Rightarrow> int" where
  "getUrlScore p = url_loop (toLowerCase (href p)) CHECKOUT_URL_PATTERNS"

definition button_text :: "element \<Rightarrow> string" where
  "button_text b =
     or_empty (or_else (map_option trim (textContent b))
                (or_else (val b) (getAttribute b ''aria-label'')))"

definition isPurchaseButton :: "element \<Rightarrow> bool" where
  "isPurchaseButton el = list_ex (\<lambda>p. test p (button_text el)) PURCHASE_BUTTON_PATTERNS"

definition sel_score_buttons :: string where
  "sel_score_buttons = ''button, input[type='submit'], a[role='button']''"

fun button_loop :: "element list \<Rightarrow> int" where
  "button_loop [] = 0"
| "button_loop (b # bs) = (if isPurchaseButton b then 40 else button_loop bs)"

definition getButtonScore :: "page \<Rightarrow> int" where
  "getButtonScore p = button_loop (querySelectorAll p sel_score_buttons)"

definition sel_price_display :: string where
  \<open>sel_price_display = ''[class*="price"], [class*="total"], [data-price]''\<close>

definition sel_payment_input :: string where
  \<open>sel_payment_input =
     ''input[name*="card"], input[name*="credit"], input[autocomplete*="cc-"]''\<close>

definition sel_order_summary :: string where
  \<open>sel_order_summary =
     ''[class*="order-summary"], [class*="cart-summary"], [id*="order-summary"]''\<close>

definition getDomScore :: "page \<Rightarrow> int" where
  "getDomScore p =
     (let score = 0;
          score = (if length (querySelectorAll p sel_price_display) > 0 then score + 10 else score);
          score = (if length (querySelectorAll p sel_payment_input) > 0 then score + 15 else score);
          score = (if querySelector p sel_order_summary \<noteq> None then score + 5 else score)
      in min score 30)"

definition totalScore :: "page \<Rightarrow> int" where
  "totalScore p = getUrlScore p + getButtonScore p + getDomScore p"

section \<open>Product extraction\<close>

record product_info =
  name :: string
  price :: rat
  category :: string
  url :: string
  image :: "string option"

definition nameSelectors :: "string list" where
  \<open>nameSelectors =
     [''#productTitle'',
      ''.sc-product-title'',
      ''.sc-product-link'',
      ''.x-item-title__mainTitle'',
      ''h1[itemprop='name']'',
      ''[data-testid='product-title']'',
      ''h1[data-test='product-title']'',
      ''.sku-title h1'',
      ''.heading-5.v-fw-regular'',
      ''h1[data-buy-box-listing-title]'',
      ''.product__title h1'',
      ''.product-single__title'',
      ''[itemprop='name']'',
      ''[data-product-name]'',
      ''.product-title'',
      ''.product-name'',
      ''h1.title'',
      ''h1'']\<close>

text \<open>The trimmed text of the first element a selector finds, when there is one.\<close>

definition selector_text :: "page \<Rightarrow> string \<Rightarrow> string option" where
  "selector_text p sel = map_option trim (Option.bind (querySelector p sel) textContent)"

definition usable_name :: "string \<Rightarrow> bool" where
  "usable_name text = (text \<noteq> [] \<and> length text > 1 \<and> length text < 300)"

fun name_loop :: "page \<Rightarrow> string list \<Rightarrow> string" where
  "name_loop p [] = []"
| "name_loop p (sel # sels) =
     (case selector_text p sel of
        Some text \<Rightarrow> if usable_name text then text else name_loop p sels
      | None \<Rightarrow> name_loop p sels)"

text \<open>
  The title pattern \<open>\s*[-|:].*$\<close> matches at a position when, after the white space
  there, a separator follows and no line terminator comes after it; the leftmost match
  and everything behind it are removed.
\<close>

definition is_title_sep :: "char \<Rightarrow> bool" where
  "is_title_sep c = (c = CHR ''-'' \<or> c = CHR ''|'' \<or> c = CHR '':'')"

definition is_line_terminator :: "char \<Rightarrow> bool" where
  "is_line_terminator c = (code c = 10 \<or> code c = 13)"

definition title_match_here :: "string \<Rightarrow> bool" where
  "title_match_here s =
     (case dropWhile is_ws s of
        [] \<Rightarrow> False
      | c # r \<Rightarrow> is_title_sep c \<and> \<not> list_ex is_line_terminator r)"

fun strip_title_suffix :: "string \<Rightarrow> string" where
  "strip_title_suffix [] = []"
| "strip_title_suffix (c # cs) =
     (if title_match_here (c # cs) then [] else c # strip_title_suffix cs)"

definition cleaned_title :: "page \<Rightarrow> string" where
  "cleaned_title p = trim (strip_title_suffix (title p))"

definition extract_name :: "page \<Rightarrow> string" where
  "extract_name p =
     (let name = name_loop p nameSelectors;
          name = (if name = [] then
                    (if cleaned_title p = [] then ''Unknown Product'' else cleaned_title p)
                  else name)
      in name)"

definition priceSelectors :: "string list" where
  \<open>priceSelectors =
     [''.a-price .a-offscreen'',
      ''#priceblock_ourprice'',
      ''#priceblock_dealprice'',
      ''.a-price-whole'',
      ''.x-price-primary .ux-textspans'',
      ''[itemprop='price']'',
      ''[data-testid='price-wrap'] [itemprop='price']'',
      ''span[itemprop='price']'',
      ''[data-test='product-price']'',
      ''.priceView-customer-price span'',
      ''.priceView-hero-price span'',
      ''.wt-text-title-03'',
      ''[data-buy-box-region='price'] p'',
      ''.product__price'',
      ''.price__current .money'',
      ''.product-price'',
      ''[data-price-amount]'',
      ''[data-price]'',
      ''.price'',
      ''.current-price'',
      ''.sale-price'']\<close>

definition price_text :: "page \<Rightarrow> string \<Rightarrow> string" where
  "price_text p sel =
     (let el = querySelector p sel
      in or_empty
           (or_else (Option.bind el textContent)
           (or_else (Option.bind el (\<lambda>e. getAttribute e ''data-price-amount''))
           (or_else (Option.bind el (\<lambda>e. getAttribute e ''data-price''))
                    (Option.bind el (\<lambda>e. getAttribute e ''content''))))))"

text \<open>
  The first match of \<open>[\d,]+\.?\d*\<close>: from the first digit or comma, the longest run
  of digits and commas, a dot when one follows, and the digits behind it.
\<close>

definition is_digit_or_comma :: "char \<Rightarrow> bool" where
  "is_digit_or_comma c = (is_digit c \<or> c = CHR '','')"

fun price_match :: "string \<Rightarrow> string option" where
  "price_match [] = None"
| "price_match (c # cs) =
     (if is_digit_or_comma c then
        (let run = takeWhile is_digit_or_comma (c # cs);
             rest = dropWhile is_digit_or_comma (c # cs)
         in case rest of
              [] \<Rightarrow> Some run
            | d # rest' \<Rightarrow>
                if d = CHR ''.'' then Some (run @ [d] @ takeWhile is_digit rest')
                else Some run)
      else price_match cs)"

text \<open>\<open>match.replace(",", "")\<close> removes the first comma only.\<close>

definition replace_first_comma :: "string \<Rightarrow> string" where
  "replace_first_comma s = remove1 (CHR '','') s"

fun digits_value :: "string \<Rightarrow> nat \<Rightarrow> nat" where
  "digits_value [] acc = acc"
| "digits_value (c # cs) acc = digits_value cs (10 * acc + (code c - 48))"

text \<open>
  \<open>parseFloat\<close> on the strings the price pattern yields (digits, commas, at most one dot):
  the value of the longest prefix that is a decimal numeral, and \<open>NaN\<close>, here \<open>None\<close>,
  when that prefix has no digit.
\<close>

definition parseFloat :: "string \<Rightarrow> rat option" where
  "parseFloat s =
     (let ip = takeWhile is_digit s;
          r = dropWhile is_digit s;
          fp = (case r of [] \<Rightarrow> [] | c # r' \<Rightarrow> if c = CHR ''.'' then takeWhile is_digit r' else [])
      in if ip = [] \<and> fp = [] then None
         else Some (of_nat (digits_value ip 0) + of_nat (digits_value fp 0) / 10 ^ length fp))"

text \<open>What one selector contributes: the parsed number when it is positive.\<close>

definition selector_price :: "page \<Rightarrow> string \<Rightarrow> rat option" where
  "selector_price p sel =
     (case price_match (price_text p sel) of
        None \<Rightarrow> None
      | Some m \<Rightarrow>
          (case parseFloat (replace_first_comma m) of
             None \<Rightarrow> None
           | Some parsed \<Rightarrow> if parsed > 0 then Some parsed else None))"

fun price_loop :: "page \<Rightarrow> string list \<Rightarrow> rat" where
  "price_loop p [] = 0"
| "price_loop p (sel # sels) =
     (case selector_price p sel of Some parsed \<Rightarrow> parsed | None \<Rightarrow> price_loop p sels)"

definition imageSelectors :: "string list" where
  \<open>imageSelectors =
     [''#landingImage'',
      ''#icImg'',
      ''[data-testid='hero-image'] img'',
      ''[data-test='product-image'] img'',
      ''.primary-image img'',
      ''[data-buy-box-region='image'] img'',
      ''.product__media img'',
      ''.product-featured-media img'',
      ''.product-image img'',
      ''[itemprop='image']'']\<close>

fun image_loop :: "page \<Rightarrow> string list \<Rightarrow> string option" where
  "image_loop p [] = None"
| "image_loop p (sel # sels) =
     (case or_else (Option.bind (querySelector p sel) src) None of
        Some s \<Rightarrow> Some s
      | None \<Rightarrow> image_loop p sels)"

definition extractProductInfo :: "page \<Rightarrow> product_info" where
  "extractProductInfo p =
     \<lparr>name = take 200 (extract_name p),
      price = price_loop p priceSelectors,
      category = ''general'',
      url = href p,
      image = image_loop p imageSelectors\<rparr>"

section \<open>The state of the content script\<close>

text \<open>
  A shield is the transparent division laid over a button; \<open>sid\<close> is its identity as a
  node. The module keeps the map from buttons (by identity) to shields; the shields
  attached to the document body are kept apart, since the claim that a button is never
  wrapped twice is about the document.
\<close>

record shield =
  sid :: nat
  css_display :: string
  css_top :: rat
  css_left :: rat
  css_width :: rat
  css_height :: rat

record detected_msg =
  msg_product :: product_info
  msg_site :: string
  msg_confidence :: int

text \<open>
  The module variables, the key \<open>proceedUntil\<close> of the session storage, and what the
  script has done to the outside: the \<open>PURCHASE_DETECTED\<close> messages sent and the
  buttons clicked by \<open>button.click()\<close>, in order.
\<close>

record detector =
  handledUrl :: "string option"
  overlayActive :: bool
  pendingButton :: "element option"
  shieldedButtons :: "(nat \<times> shield) list"
  body_shields :: "nat list"
  next_sid :: nat
  lastAutoDetection :: int
  lastUrl :: string
  proceedUntil :: "int option"
  sent :: "detected_msg list"
  clicks :: "nat list"

definition SUPPRESSION_MS :: int where
  "SUPPRESSION_MS = 30000"

definition AUTO_DETECT_DEBOUNCE_MS :: int where
  "AUTO_DETECT_DEBOUNCE_MS = 2000"

subsection \<open>Shields\<close>

definition sel_shield_candidates :: string where
  "sel_shield_candidates =
     ''button, input[type='submit'], a[role='button'], [role='button']''"

definition findPurchaseButtons :: "page \<Rightarrow> element list" where
  "findPurchaseButtons p = filter isPurchaseButton (querySelectorAll p sel_shield_candidates)"

definition zero_sized :: "element \<Rightarrow> bool" where
  "zero_sized b = (rect_width b = 0 \<or> rect_height b = 0)"

text \<open>\<open>createShield\<close> makes the node and appends it to the body; the click handler it
  registers is \<open>shield_click\<close> below.\<close>

definition createShield :: "page \<Rightarrow> element \<Rightarrow> detector \<Rightarrow> shield \<times> detector" where
  "createShield p button s =
     (let sh = \<lparr>sid = next_sid s,
                css_display = [],
                css_top = rect_top button + scrollY p,
                css_left = rect_left button + scrollX p,
                css_width = rect_width button,
                css_height = rect_height button\<rparr>
      in (sh, s\<lparr>body_shields := body_shields s @ [sid sh], next_sid := Suc (next_sid s)\<rparr>))"

definition updateShieldPosition :: "page \<Rightarrow> element \<Rightarrow> detector \<Rightarrow> detector" where
  "updateShieldPosition p button s =
     (case map_of (shieldedButtons s) (eid button) of
        None \<Rightarrow> s
      | Some sh \<Rightarrow>
          if zero_sized button then
            s\<lparr>shieldedButtons :=
                 AList.update (eid button) (sh\<lparr>css_display := ''none''\<rparr>) (shieldedButtons s)\<rparr>
          else
            s\<lparr>shieldedButtons :=
                 AList.update (eid button)
                   (sh\<lparr>css_display := [],
                       css_top := rect_top button + scrollY p,
                       css_left := rect_left button + scrollX p,
                       css_width := rect_width button,
                       css_height := rect_height button\<rparr>)
                   (shieldedButtons s)\<rparr>)"

text \<open>The body of the loop of \<open>shieldPurchaseButtons\<close>.\<close>

definition shield_step :: "page \<Rightarrow> element \<Rightarrow> detector \<Rightarrow> detector" where
  "shield_step p button s =
     (if map_of (shieldedButtons s) (eid button) \<noteq> None then updateShieldPosition p button s
      else if zero_sized button then s
      else (let (sh, s') = createShield p button s
            in s'\<lparr>shieldedButtons := AList.update (eid button) sh (shieldedButtons s')\<rparr>))"

definition shieldPurchaseButtons :: "page \<Rightarrow> detector \<Rightarrow> detector" where
  "shieldPurchaseButtons p s =
     (if handledUrl s = Some (href p) then s
      else fold (shield_step p) (findPurchaseButtons p) s)"

definition removeAllShields :: "detector \<Rightarrow> detector" where
  "removeAllShields s =
     s\<lparr>body_shields := fold (\<lambda>(b, sh) bd. removeAll (sid sh) bd) (shieldedButtons s) (body_shields s),
       shieldedButtons := []\<rparr>"

subsection \<open>Suppression\<close>

definition isSuppressed :: "int \<Rightarrow> detector \<Rightarrow> bool" where
  "isSuppressed now s = (case proceedUntil s of Some t \<Rightarrow> now < t | None \<Rightarrow> False)"

definition setSuppression :: "int \<Rightarrow> detector \<Rightarrow> detector" where
  "setSuppression now s = s\<lparr>proceedUntil := Some (now + SUPPRESSION_MS)\<rparr>"

subsection \<open>Handlers\<close>

text \<open>
  Each handler runs to its end before the next event: the content script is
  single-threaded, and the reply of the background to a message is an event of its own.
  A handler that awaits \<open>isSuppressed()\<close> reads the session storage as it is when the
  handler starts. \<open>now\<close> is \<open>Date.now()\<close> in milliseconds.
\<close>

definition handleShieldClick :: "page \<Rightarrow> element \<Rightarrow> detector \<Rightarrow> detector" where
  "handleShieldClick p button s =
     s\<lparr>pendingButton := Some button,
       sent := sent s @ [\<lparr>msg_product = extractProductInfo p,
                           msg_site = hostname p,
                           msg_confidence = 100\<rparr>]\<rparr>"

text \<open>The reply to the message of \<open>handleShieldClick\<close>: \<open>Some blocked\<close>, or \<open>None\<close>
  when the promise is rejected.\<close>

definition click_through :: "element \<Rightarrow> detector \<Rightarrow> detector" where
  "click_through button s =
     (let s = removeAllShields s;
          s = s\<lparr>clicks := clicks s @ [eid button]\<rparr>
      in s\<lparr>pendingButton := None\<rparr>)"

definition shield_click_reply :: "page \<Rightarrow> element \<Rightarrow> bool option \<Rightarrow> detector \<Rightarrow> detector" where
  "shield_click_reply p button reply s =
     (case reply of
        Some blocked \<Rightarrow>
          if blocked then s\<lparr>handledUrl := Some (href p)\<rparr> else click_through button s
      | None \<Rightarrow> click_through button s)"

text \<open>The click listener of the shield over \<open>button\<close>.\<close>

definition shield_click :: "int \<Rightarrow> page \<Rightarrow> element \<Rightarrow> detector \<Rightarrow> detector" where
  "shield_click now p button s =
     (if overlayActive s \<or> handledUrl s = Some (href p) then s
      else if isSuppressed now s then
        (let s = removeAllShields s in s\<lparr>clicks := clicks s @ [eid button]\<rparr>)
      else handleShieldClick p button s)"

definition autoDetectPurchaseIntent :: "int \<Rightarrow> page \<Rightarrow> detector \<Rightarrow> detector" where
  "autoDetectPurchaseIntent now p s =
     (if handledUrl s = Some (href p) then s
      else if isSuppressed now s then s
      else if now - lastAutoDetection s < AUTO_DETECT_DEBOUNCE_MS then s
      else if totalScore p \<ge> 60 then
        s\<lparr>lastAutoDetection := now,
          sent := sent s @ [\<lparr>msg_product = extractProductInfo p,
                              msg_site = hostname p,
                              msg_confidence = totalScore p\<rparr>]\<rparr>
      else s)"

definition auto_detect_reply :: "page \<Rightarrow> bool option \<Rightarrow> detector \<Rightarrow> detector" where
  "auto_detect_reply p reply s =
     (case reply of
        Some blocked \<Rightarrow> if blocked then s\<lparr>handledUrl := Some (href p)\<rparr> else s
      | None \<Rightarrow> s)"

datatype tab_message = SHOW_OVERLAY | PROCEED_WITH_PURCHASE | RESET_DETECTION | OTHER_MESSAGE

definition onMessage :: "int \<Rightarrow> page \<Rightarrow> tab_message \<Rightarrow> detector \<Rightarrow> detector" where
  "onMessage now p m s =
     (case m of
        SHOW_OVERLAY \<Rightarrow> s\<lparr>overlayActive := True\<rparr>
      | PROCEED_WITH_PURCHASE \<Rightarrow>
          (let s = s\<lparr>overlayActive := False\<rparr>;
               s = setSuppression now s;
               s = removeAllShields s;
               s = s\<lparr>handledUrl := Some (href p)\<rparr>
           in case pendingButton s of
                Some b \<Rightarrow> s\<lparr>clicks := clicks s @ [eid b], pendingButton := None\<rparr>
              | None \<Rightarrow> s)
      | RESET_DETECTION \<Rightarrow>
          (let s = s\<lparr>overlayActive := False\<rparr>;
               s = removeAllShields s;
               s = s\<lparr>handledUrl := Some (href p)\<rparr>
           in s\<lparr>pendingButton := None\<rparr>)
      | OTHER_MESSAGE \<Rightarrow> s)"

text \<open>The mutation observer, for a batch with an added node or a changed attribute.\<close>

definition on_mutation :: "int \<Rightarrow> page \<Rightarrow> detector \<Rightarrow> detector" where
  "on_mutation now p s = shieldPurchaseButtons p (autoDetectPurchaseIntent now p s)"

text \<open>One tick of the poller that watches the address.\<close>

definition url_poll :: "int \<Rightarrow> page \<Rightarrow> detector \<Rightarrow> detector" where
  "url_poll now p s =
     (if href p \<noteq> lastUrl s then
        (let s = s\<lparr>lastUrl := href p\<rparr>;
             s = s\<lparr>handledUrl := None\<rparr>;
             s = removeAllShields s;
             s = autoDetectPurchaseIntent now p s
         in shieldPurchaseButtons p s)
      else s)"

text \<open>The script as loaded into a page at time \<open>now\<close>, with the session storage as found.\<close>

definition initial :: "int \<Rightarrow> page \<Rightarrow> int option \<Rightarrow> detector" where
  "initial now p session =
     (let s = \<lparr>handledUrl = None, overlayActive = False, pendingButton = None,
                shieldedButtons = [], body_shields = [], next_sid = 0,
                lastAutoDetection = 0, lastUrl = href p, proceedUntil = session,
                sent = [], clicks = []\<rparr>
      in shieldPurchaseButtons p (autoDetectPurchaseIntent now p s))"

datatype event =
    Mutation
  | UrlPoll
  | ShieldClick element
  | ShieldClickReply element "bool option"
  | AutoDetectReply "bool option"
  | TabMessage tab_message

fun step :: "int \<times> page \<times> event \<Rightarrow> detector \<Rightarrow> detector" where
  "step (now, p, Mutation) s = on_mutation now p s"
| "step (now, p, UrlPoll) s = url_poll now p s"
| "step (now, p, ShieldClick b) s = shield_click now p b s"
| "step (now, p, ShieldClickReply b r) s = shield_click_reply p b r s"
| "step (now, p, AutoDetectReply r) s = auto_detect_reply p r s"
| "step (now, p, TabMessage m) s = onMessage now p m s"

definition run :: "(int \<times> page \<times> event) list \<Rightarrow> detector \<Rightarrow> detector" where
  "run evs s = fold step evs s"

section \<open>The reflection client\<close>

datatype time_of_day = Morning | Afternoon | Evening | Night | Late_night

datatype risk = Low | Medium | High

definition getTimeOfDay :: "int \<Rightarrow> time_of_day" where
  "getTimeOfDay hour =
     (if hour \<ge> 5 \<and> hour < 12 then Morning
      else if hour \<ge> 12 \<and> hour < 17 then Afternoon
      else if hour \<ge> 17 \<and> hour < 21 then Evening
      else if hour \<ge> 21 \<and> hour < 23 then Night
      else Late_night)"

record reflection_context =
  timeOfDay :: time_of_day
  recentPurchaseCount :: int
  frictionLevel :: int

definition FALLBACK_QUESTIONS :: "string list" where
  "FALLBACK_QUESTIONS =
     [''Do you need this right now, or can it wait a few days?'',
      ''How will you feel about this purchase in a week?'',
      ''Is this aligned with your current financial goals?'',
      ''Would you still want this if there was no sale?'',
      ''Do you already own something that serves this purpose?'']"

text \<open>
  \<open>[...FALLBACK_QUESTIONS].sort(() => Math.random() - 0.5)\<close>. The comparator ignores its
  arguments, so the order an engine produces is its own; the model sorts by insertion and
  draws one number of \<open>Math.random()\<close> for each comparison. \<open>rnd\<close> is the sequence of
  draws, and the counter says how many are used up.
\<close>

fun insert_random :: "(nat \<Rightarrow> rat) \<Rightarrow> nat \<Rightarrow> 'a \<Rightarrow> 'a list \<Rightarrow> 'a list \<times> nat" where
  "insert_random rnd i x [] = ([x], i)"
| "insert_random rnd i x (y # ys) =
     (if rnd i - 1 / 2 < 0 then (x # y # ys, Suc i)
      else (let (zs, j) = insert_random rnd (Suc i) x ys in (y # zs, j)))"

fun sort_random :: "(nat \<Rightarrow> rat) \<Rightarrow> nat \<Rightarrow> 'a list \<Rightarrow> 'a list \<times> nat" where
  "sort_random rnd i [] = ([], i)"
| "sort_random rnd i (x # xs) =
     (let (ys, j) = sort_random rnd i xs in insert_random rnd j x ys)"

definition getRandomFallbackQuestions :: "(nat \<Rightarrow> rat) \<Rightarrow> nat \<Rightarrow> string list" where
  "getRandomFallbackQuestions rnd count =
     (let shuffled = fst (sort_random rnd 0 FALLBACK_QUESTIONS) in take count shuffled)"

definition determineLocalRiskLevel :: "rat \<Rightarrow> reflection_context \<Rightarrow> risk" where
  "determineLocalRiskLevel product_price context =
     (let score = (0::int);
          score = (if timeOfDay context = Late_night then score + 2
                   else if timeOfDay context = Night then score + 1 else score);
          score = (if recentPurchaseCount context > 3 then score + 2
                   else if recentPurchaseCount context > 1 then score + 1 else score);
          score = (if product_price > 200 then score + 2
                   else if product_price > 50 then score + 1 else score)
      in if score \<ge> 4 then High else if score \<ge> 2 then Medium else Low)"

text \<open>
  The risk classifier of the proxy's server. Its request carries the local date and time;
  \<open>hour\<close> is the hour the server reads from it.
\<close>

record server_request =
  req_price :: rat
  req_hour :: int
  req_recentPurchaseCount :: int
  req_frictionLevel :: int

definition determineRiskLevel :: "server_request \<Rightarrow> risk" where
  "determineRiskLevel request =
     (let tod = getTimeOfDay (req_hour request);
          riskScore = (0::int);
          riskScore = (if tod = Late_night then riskScore + 2
                       else if tod = Night then riskScore + 1 else riskScore);
          riskScore = (if req_recentPurchaseCount request > 3 then riskScore + 2
                       else if req_recentPurchaseCount request > 1 then riskScore + 1
                       else riskScore);
          riskScore = (if req_frictionLevel request \<ge> 4 then riskScore + 1 else riskScore);
          riskScore = (if req_price request > 200 then riskScore + 2
                       else if req_price request > 50 then riskScore + 1 else riskScore)
      in if riskScore \<ge> 4 then High else if riskScore \<ge> 2 then Medium else Low)"

record goal_impact =
  gi_goalName :: string
  gi_delayDays :: int
  gi_message :: string

record response_meta =
  meta_clientId :: string
  meta_timestamp :: int
  meta_source :: string
  meta_error :: "string option"

record reflection_response =
  questions :: "string list"
  goalImpact :: "goal_impact option"
  riskLevel :: risk
  meta :: "response_meta option"

text \<open>
  \<open>impact\<close> is what the goal impact calculator returns for the stored goals and the
  price; its date arithmetic is outside this development.
\<close>

definition createFallbackResponse ::
  "(nat \<Rightarrow> rat) \<Rightarrow> int \<Rightarrow> product_info \<Rightarrow> reflection_context \<Rightarrow> goal_impact option \<Rightarrow>
   string option \<Rightarrow> reflection_response" where
  "createFallbackResponse rnd now product context impact err =
     (let questionCount = (if frictionLevel context \<ge> 4 then 3 else 2)
      in \<lparr>questions = getRandomFallbackQuestions rnd questionCount,
          goalImpact = impact,
          riskLevel = determineLocalRiskLevel (price product) context,
          meta = Some \<lparr>meta_clientId = ''local'', meta_timestamp = now,
                        meta_source = ''fallback'', meta_error = err\<rparr>\<rparr>)"

subsection \<open>The call to the proxy\<close>

record rate_limit =
  rl_limit :: int
  rl_remaining :: int
  rl_resetAt :: int

record api_error =
  err_error :: string
  err_message :: "string option"
  err_resetAt :: "int option"

text \<open>
  What \<open>fetch\<close> delivers. The headers are given as the numbers \<open>parseInt\<close> reads from
  them. A read of the body either throws (\<open>Inl\<close>) or yields the value, seen at the type the
  caller casts it to. A thrown value is \<open>Some message\<close> for an \<open>Error\<close> and \<open>None\<close>
  otherwise.
\<close>

record http_response =
  status :: nat
  hdr_limit :: "int option"
  hdr_remaining :: "int option"
  hdr_reset :: "int option"
  json_as_error :: "string option + api_error"
  json_as_data :: "string option + reflection_response"
  text_body :: "string option + string"

datatype fetch_outcome = FetchRejected "string option" | FetchResponse http_response

definition response_ok :: "http_response \<Rightarrow> bool" where
  "response_ok r = (200 \<le> status r \<and> status r \<le> 299)"

fun decimal :: "nat \<Rightarrow> string" where
  "decimal n = (if n < 10 then [char_of (48 + n)] else decimal (n div 10) @ [char_of (48 + n mod 10)])"

declare decimal.simps [simp del]

record rate_limit_info =
  rli_exceeded :: bool
  rli_remaining :: "int option"
  rli_resetAt :: int

datatype outcome = Pending | Bought | Saved | Cooled_off

text \<open>An entry of \<open>purchaseHistory\<close>; time stamps are kept as milliseconds.\<close>

record history_entry =
  h_id :: "string option"
  h_eventId :: "string option"
  h_product :: "product_info option"
  h_site :: "string option"
  h_confidence :: "int option"
  h_timestamp :: int
  h_category :: "string option"
  h_riskLevel :: "risk option"
  h_questionsAsked :: "string list"
  h_userResponses :: "string list"
  h_reflectionTime :: int
  h_outcome :: outcome
  h_source :: "string option"

text \<open>
  The settings as their type declares them: the bounds \<open>start\<close> and \<open>end\<close> of a quiet
  window are strings.
\<close>

record settings =
  set_frictionLevel :: int
  enabledSites :: "string list"
  quietHours :: "(string \<times> string) option"
  notifications :: bool

text \<open>
  The counters are numbers of the engine. A finite one is given by its value; the sum of
  two of them is the rounded sum the engine computes, which the environment supplies as
  \<open>env_add\<close> below.
\<close>

record stats =
  savedToday :: rat
  savedTotal :: rat
  streak :: int

text \<open>The keys of the local storage the coordinator uses; \<open>None\<close> is a key not set.\<close>

record storage =
  enabled :: "bool option"
  settings :: "settings option"
  stats :: "stats option"
  purchaseHistory :: "history_entry list option"
  rateLimitInfo :: "rate_limit_info option"

text \<open>
  What a handler of the background takes from outside the storage. \<open>env_add\<close> is the
  operator \<open>+\<close> of the engine on numbers: the sum rounded to binary64. Nothing is assumed
  of it.
\<close>

record bg_env =
  env_now :: int
  env_hour :: int
  env_uuid :: string
  env_rnd :: "nat \<Rightarrow> rat"
  env_fetch :: fetch_outcome
  env_impact :: "goal_impact option"
  env_add :: "rat \<Rightarrow> rat \<Rightarrow> rat"

record context_override =
  o_timeOfDay :: "time_of_day option"
  o_recentPurchaseCount :: "int option"
  o_frictionLevel :: "int option"

definition build_context ::
  "bg_env \<Rightarrow> storage \<Rightarrow> product_info \<Rightarrow> context_override option \<Rightarrow> reflection_context" where
  "build_context env st product partialContext =
     (let weekAgo = env_now env - 7 * 24 * 60 * 60 * 1000;
          history = (case purchaseHistory st of Some h \<Rightarrow> h | None \<Rightarrow> []);
          recentPurchases =
            filter (\<lambda>p. h_timestamp p > weekAgo \<and>
                         (h_category p = None \<or> h_category p = Some [] \<or>
                          h_category p = Some (category product))) history;
          context = \<lparr>timeOfDay = getTimeOfDay (env_hour env),
                     recentPurchaseCount = int (length recentPurchases),
                     frictionLevel =
                       (case settings st of
                          Some se \<Rightarrow> if set_frictionLevel se = 0 then 3 else set_frictionLevel se
                        | None \<Rightarrow> 3)\<rparr>
      in case partialContext of
           None \<Rightarrow> context
         | Some ov \<Rightarrow>
             \<lparr>timeOfDay = (case o_timeOfDay ov of Some t \<Rightarrow> t | None \<Rightarrow> timeOfDay context),
              recentPurchaseCount =
                (case o_recentPurchaseCount ov of Some c \<Rightarrow> c | None \<Rightarrow> recentPurchaseCount context),
              frictionLevel =
                (case o_frictionLevel ov of Some f \<Rightarrow> f | None \<Rightarrow> frictionLevel context)\<rparr>)"

text \<open>The \<open>catch\<close> block of \<open>callProxyAPI\<close>.\<close>

definition proxy_catch ::
  "bg_env \<Rightarrow> storage \<Rightarrow> product_info \<Rightarrow> reflection_context \<Rightarrow> string option \<Rightarrow>
   (reflection_response \<times> rate_limit option) \<times> storage" where
  "proxy_catch env st product context thrown =
     ((createFallbackResponse (env_rnd env) (env_now env) product context (env_impact env)
         (Some (case thrown of Some m \<Rightarrow> m | None \<Rightarrow> ''network_error'')), None), st)"

definition callProxyAPI ::
  "bg_env \<Rightarrow> storage \<Rightarrow> product_info \<Rightarrow> context_override option \<Rightarrow>
   (reflection_response \<times> rate_limit option) \<times> storage" where
  "callProxyAPI env st product partialContext =
     (let context = build_context env st product partialContext
      in case env_fetch env of
           FetchRejected thrown \<Rightarrow> proxy_catch env st product context thrown
         | FetchResponse response \<Rightarrow>
             (let rateLimit =
                    \<lparr>rl_limit = (case hdr_limit response of Some n \<Rightarrow> n | None \<Rightarrow> 100),
                     rl_remaining = (case hdr_remaining response of Some n \<Rightarrow> n | None \<Rightarrow> 100),
                     rl_resetAt = (case hdr_reset response of Some n \<Rightarrow> n
                                   | None \<Rightarrow> env_now env + 86400000)\<rparr>
              in if status response = 429 then
                   (case json_as_error response of
                      Inl thrown \<Rightarrow> proxy_catch env st product context thrown
                    | Inr errorData \<Rightarrow>
                        ((createFallbackResponse (env_rnd env) (env_now env) product context
                            (env_impact env) (Some ''rate_limit_exceeded''), Some rateLimit),
                         st\<lparr>rateLimitInfo :=
                              Some \<lparr>rli_exceeded = True, rli_remaining = None,
                                    rli_resetAt =
                                      (case err_resetAt errorData of
                                         Some r \<Rightarrow> if r = 0 then rl_resetAt rateLimit else r
                                       | None \<Rightarrow> rl_resetAt rateLimit)\<rparr>\<rparr>))
                 else if \<not> response_ok response then
                   (case text_body response of
                      Inl thrown \<Rightarrow> proxy_catch env st product context thrown
                    | Inr errorText \<Rightarrow>
                        ((createFallbackResponse (env_rnd env) (env_now env) product context
                            (env_impact env) (Some (''api_error_'' @ decimal (status response))),
                          Some rateLimit), st))
                 else
                   (case json_as_data response of
                      Inl thrown \<Rightarrow> proxy_catch env st product context thrown
                    | Inr data \<Rightarrow>
                        ((data, Some rateLimit),
                         st\<lparr>rateLimitInfo :=
                              Some \<lparr>rli_exceeded = False,
                                    rli_remaining = Some (rl_remaining rateLimit),
                                    rli_resetAt = rl_resetAt rateLimit\<rparr>\<rparr>))))"

text \<open>The remote call has failed when no response of the 2xx class with a readable
  body has come back.\<close>

definition proxy_call_failed :: "fetch_outcome \<Rightarrow> bool" where
  "proxy_call_failed f =
     (case f of
        FetchRejected thrown \<Rightarrow> True
      | FetchResponse r \<Rightarrow> status r = 429 \<or> \<not> response_ok r)"

section \<open>Numbers read from strings\<close>

text \<open>
  The conversion of a string to a number that the engine applies when a string is compared
  with a number: white space at both ends is dropped, the empty string is 0, and the rest
  must be, as a whole, a decimal numeral (with optional sign, fraction and exponent),
  \<open>Infinity\<close> with optional sign, or an unsigned hexadecimal, octal or binary numeral;
  every other string is \<open>NaN\<close>. A finite result is given by the exact value of the
  numeral: the rounding to binary64 is not modelled. For a numeral of at most 15 digits
  without exponent, an hour of the day compares with the exact value as it does with the
  rounded one.
\<close>

datatype js_number = NaN | Finite rat | PosInfinity | NegInfinity

definition digit_value :: "char \<Rightarrow> nat option" where
  "digit_value c =
     (if 48 \<le> code c \<and> code c \<le> 57 then Some (code c - 48)
      else if 97 \<le> code c \<and> code c \<le> 102 then Some (code c - 87)
      else if 65 \<le> code c \<and> code c \<le> 70 then Some (code c - 55)
      else None)"

fun digits_in_base :: "nat \<Rightarrow> string \<Rightarrow> nat \<Rightarrow> nat option" where
  "digits_in_base b [] acc = Some acc"
| "digits_in_base b (c # cs) acc =
     (case digit_value c of
        Some d \<Rightarrow> if d < b then digits_in_base b cs (b * acc + d) else None
      | None \<Rightarrow> None)"

definition radix_literal :: "nat \<Rightarrow> string \<Rightarrow> js_number" where
  "radix_literal b ds =
     (if ds = [] then NaN
      else case digits_in_base b ds 0 of Some n \<Rightarrow> Finite (of_nat n) | None \<Rightarrow> NaN)"

text \<open>The exponent behind the mantissa: absent, or \<open>e\<close> with a signed integer.\<close>

definition exponent_part :: "string \<Rightarrow> int option" where
  "exponent_part s =
     (case s of
        [] \<Rightarrow> Some 0
      | c # r \<Rightarrow>
          if c = CHR ''e'' \<or> c = CHR ''E'' then
            (let neg = (case r of [] \<Rightarrow> False | g # r' \<Rightarrow> g = CHR ''-'');
                 ds = (case r of
                         [] \<Rightarrow> []
                       | g # r' \<Rightarrow> if g = CHR ''-'' \<or> g = CHR ''+'' then r' else r)
             in if ds \<noteq> [] \<and> list_all is_digit ds then
                  Some (if neg then - int (digits_value ds 0) else int (digits_value ds 0))
                else None)
          else None)"

definition unsigned_decimal :: "string \<Rightarrow> js_number" where
  "unsigned_decimal s =
     (if s = ''Infinity'' then PosInfinity
      else
        (let ip = takeWhile is_digit s;
             r1 = dropWhile is_digit s;
             dot = (case r1 of [] \<Rightarrow> False | c # r' \<Rightarrow> c = CHR ''.'');
             fp = (if dot then takeWhile is_digit (tl r1) else []);
             r2 = (if dot then dropWhile is_digit (tl r1) else r1)
         in if ip = [] \<and> fp = [] then NaN
            else
              (case exponent_part r2 of
                 None \<Rightarrow> NaN
               | Some e \<Rightarrow>
                   (let m = of_nat (digits_value ip 0)
                              + of_nat (digits_value fp 0) / 10 ^ length fp
                    in Finite (if e \<ge> 0 then m * 10 ^ nat e else m / 10 ^ nat (- e))))))"

definition negate :: "js_number \<Rightarrow> js_number" where
  "negate n =
     (case n of
        NaN \<Rightarrow> NaN
      | Finite v \<Rightarrow> Finite (- v)
      | PosInfinity \<Rightarrow> NegInfinity
      | NegInfinity \<Rightarrow> PosInfinity)"

definition StringToNumber :: "string \<Rightarrow> js_number" where
  "StringToNumber str =
     (let t = trim str
      in case t of
           [] \<Rightarrow> Finite 0
         | c # r \<Rightarrow>
             if c = CHR ''+'' then unsigned_decimal r
             else if c = CHR ''-'' then negate (unsigned_decimal r)
             else
               (case r of
                  [] \<Rightarrow> unsigned_decimal t
                | x # ds \<Rightarrow>
                    if c = CHR ''0'' \<and> (x = CHR ''x'' \<or> x = CHR ''X'') then radix_literal 16 ds
                    else if c = CHR ''0'' \<and> (x = CHR ''o'' \<or> x = CHR ''O'') then
                      radix_literal 8 ds
                    else if c = CHR ''0'' \<and> (x = CHR ''b'' \<or> x = CHR ''B'') then
                      radix_literal 2 ds
                    else unsigned_decimal t))"

section \<open>The session coordinator\<close>

record blocked_info =
  b_eventId :: string
  b_questions :: "string list"
  b_goalImpact :: "goal_impact option"
  b_riskLevel :: risk
  b_rateLimit :: "rate_limit option"

datatype detect_response = NotBlocked string | Blocked blocked_info

text \<open>
  The comparisons of the quiet-hours test, on the declared types. Between two strings
  \<open><=\<close> and \<open>>\<close> compare code units from the left. Between the number
  \<open>currentHour\<close> and a string, the string is first converted to a number, and a
  comparison with \<open>NaN\<close> is false.
\<close>

fun string_less :: "string \<Rightarrow> string \<Rightarrow> bool" where
  "string_less [] [] = False"
| "string_less [] (y # ys) = True"
| "string_less (x # xs) [] = False"
| "string_less (x # xs) (y # ys) =
     (code x < code y \<or> (code x = code y \<and> string_less xs ys))"

definition number_ge_string :: "int \<Rightarrow> string \<Rightarrow> bool" where
  "number_ge_string h s =
     (case StringToNumber s of
        NaN \<Rightarrow> False
      | Finite v \<Rightarrow> of_int h \<ge> v
      | PosInfinity \<Rightarrow> False
      | NegInfinity \<Rightarrow> True)"

definition number_lt_string :: "int \<Rightarrow> string \<Rightarrow> bool" where
  "number_lt_string h s =
     (case StringToNumber s of
        NaN \<Rightarrow> False
      | Finite v \<Rightarrow> of_int h < v
      | PosInfinity \<Rightarrow> True
      | NegInfinity \<Rightarrow> False)"

text \<open>
  \<open>start <= end\<close> on strings is \<open>\<not> string_less end start\<close>, and \<open>start > end\<close> is
  \<open>string_less end start\<close>.
\<close>

definition in_quiet_hours :: "int \<Rightarrow> string \<times> string \<Rightarrow> bool" where
  "in_quiet_hours currentHour q =
     (case q of (start, end) \<Rightarrow>
        (\<not> string_less end start \<and> number_ge_string currentHour start
           \<and> number_lt_string currentHour end) \<or>
        (string_less end start \<and> (number_ge_string currentHour start
           \<or> number_lt_string currentHour end)))"

definition pending_entry ::
  "bg_env \<Rightarrow> detected_msg \<Rightarrow> reflection_response \<Rightarrow> history_entry" where
  "pending_entry env message response =
     \<lparr>h_id = Some (env_uuid env),
      h_eventId = Some (env_uuid env),
      h_product = Some (msg_product message),
      h_site = Some (msg_site message),
      h_confidence = Some (msg_confidence message),
      h_timestamp = env_now env,
      h_category = None,
      h_riskLevel = Some (riskLevel response),
      h_questionsAsked = questions response,
      h_userResponses = [],
      h_reflectionTime = 0,
      h_outcome = Pending,
      h_source =
        Some (case meta response of
                Some m \<Rightarrow> if meta_source m = [] then ''unknown'' else meta_source m
              | None \<Rightarrow> ''unknown'')\<rparr>"

definition handlePurchaseDetected ::
  "bg_env \<Rightarrow> storage \<Rightarrow> detected_msg \<Rightarrow> detect_response \<times> storage" where
  "handlePurchaseDetected env st message =
     (if enabled st \<noteq> Some True then (NotBlocked ''extension_disabled'', st)
      else if (case settings st of
                 Some se \<Rightarrow> (case quietHours se of
                               Some q \<Rightarrow> in_quiet_hours (env_hour env) q
                             | None \<Rightarrow> False)
               | None \<Rightarrow> False)
      then (NotBlocked ''quiet_hours'', st)
      else if (case settings st of
                 Some se \<Rightarrow> length (enabledSites se) > 0 \<and>
                            \<not> list_ex (\<lambda>site. str_includes (msg_site message) site) (enabledSites se)
               | None \<Rightarrow> False)
      then (NotBlocked ''site_not_enabled'', st)
      else if msg_confidence message < 50 then (NotBlocked ''low_confidence'', st)
      else
        (let eventId = env_uuid env;
             ((response, rateLimit), st) = callProxyAPI env st (msg_product message) None;
             history = (case purchaseHistory st of Some h \<Rightarrow> h | None \<Rightarrow> [])
         in (Blocked \<lparr>b_eventId = eventId,
                      b_questions = questions response,
                      b_goalImpact = goalImpact response,
                      b_riskLevel = riskLevel response,
                      b_rateLimit = rateLimit\<rparr>,
             st\<lparr>purchaseHistory := Some (history @ [pending_entry env message response])\<rparr>)))"

record outcome_msg =
  om_eventId :: string
  om_outcome :: outcome
  om_reflectionTime :: int

datatype js_error = TypeError

fun findIndex :: "('a \<Rightarrow> bool) \<Rightarrow> 'a list \<Rightarrow> nat option" where
  "findIndex P [] = None"
| "findIndex P (x # xs) = (if P x then Some 0 else map_option Suc (findIndex P xs))"

text \<open>
  The record written when no event carries the identifier. Reading \<open>stats.savedToday\<close>
  when the key \<open>stats\<close> is not set throws.
\<close>

definition orphan_entry :: "bg_env \<Rightarrow> outcome_msg \<Rightarrow> history_entry" where
  "orphan_entry env message =
     \<lparr>h_id = Some (om_eventId message),
      h_eventId = Some (om_eventId message),
      h_product = None, h_site = None, h_confidence = None,
      h_timestamp = env_now env,
      h_category = None, h_riskLevel = None,
      h_questionsAsked = [], h_userResponses = [],
      h_reflectionTime = om_reflectionTime message,
      h_outcome = om_outcome message,
      h_source = None\<rparr>"

definition handlePurchaseOutcome ::
  "bg_env \<Rightarrow> storage \<Rightarrow> outcome_msg \<Rightarrow> js_error + ((bool \<times> rat) \<times> storage)" where
  "handlePurchaseOutcome env st message =
     (let history = (case purchaseHistory st of Some h \<Rightarrow> h | None \<Rightarrow> []);
          eventIndex =
            findIndex (\<lambda>e. h_eventId e = Some (om_eventId message) \<or>
                            h_id e = Some (om_eventId message)) history;
          (savedAmount, history) =
            (case eventIndex of
               Some i \<Rightarrow>
                 (let event = history ! i
                  in ((case h_product event of Some pr \<Rightarrow> price pr | None \<Rightarrow> 0),
                      history[i := event\<lparr>h_outcome := om_outcome message,
                                         h_reflectionTime := om_reflectionTime message\<rparr>]))
             | None \<Rightarrow> (0, history @ [orphan_entry env message]))
      in if om_outcome message = Saved \<or> om_outcome message = Cooled_off then
           (case stats st of
              None \<Rightarrow> Inl TypeError
            | Some stt \<Rightarrow>
                Inr ((True, savedAmount),
                     st\<lparr>stats :=
                          Some (stt\<lparr>savedToday := env_add env (savedToday stt) savedAmount,
                                    savedTotal := env_add env (savedTotal stt) savedAmount\<rparr>),
                        purchaseHistory := Some history\<rparr>))
         else Inr ((True, savedAmount), st\<lparr>purchaseHistory := Some history\<rparr>))"

section \<open>Shield bookkeeping\<close>

text \<open>
  What the module maintains about its shields: a button has one entry, no shield belongs
  to two buttons, and the shields attached to the body are exactly the registered ones,
  each attached once and created earlier.
\<close>

definition shields_consistent :: "detector \<Rightarrow> bool" where
  "shields_consistent s =
     (distinct (map fst (shieldedButtons s))
      \<and> distinct (map (sid \<circ> snd) (shieldedButtons s))
      \<and> distinct (body_shields s)
      \<and> set (body_shields s) = set (map (sid \<circ> snd) (shieldedButtons s))
      \<and> (\<forall>i\<in>set (body_shields s). i < next_sid s))"

text \<open>The style \<open>updateShieldPosition\<close> gives the shield of a button.\<close>

definition positioned :: "page \<Rightarrow> element \<Rightarrow> shield \<Rightarrow> shield" where
  "positioned p button sh =
     (if zero_sized button then sh\<lparr>css_display := ''none''\<rparr>
      else sh\<lparr>css_display := [],
              css_top := rect_top button + scrollY p,
              css_left := rect_left button + scrollX p,
              css_width := rect_width button,
              css_height := rect_height button\<rparr>)"

section \<open>Example pages and states\<close>

definition el0 :: element where
  "el0 = \<lparr>eid = 0, textContent = None, val = None, attrs = [], src = None,
           rect_top = 0, rect_left = 0, rect_width = 0, rect_height = 0\<rparr>"

definition buy_button :: element where
  "buy_button = el0\<lparr>eid := 1, textContent := Some ''Buy Now'', rect_top := 300,
                    rect_left := 40, rect_width := 80, rect_height := 20\<rparr>"

text \<open>A purchase button that is not laid out yet.\<close>

definition hidden_button :: element where
  "hidden_button = el0\<lparr>eid := 5, textContent := Some ''Pay now''\<rparr>"

text \<open>
  A button whose text does not name a purchase while its value and its label do; a submit
  input without text; a link with a label only.
\<close>

definition continue_button :: element where
  "continue_button =
     el0\<lparr>eid := 9, textContent := Some ''Continue'', val := Some ''Buy now'',
         attrs := [(''aria-label'', ''Proceed to checkout'')]\<rparr>"

definition submit_input :: element where
  "submit_input = el0\<lparr>eid := 10, textContent := Some [], val := Some ''Buy now''\<rparr>"

definition icon_link :: element where
  "icon_link =
     el0\<lparr>eid := 11, textContent := Some '' '', attrs := [(''aria-label'', ''Checkout'')]\<rparr>"

definition continue_page :: page where
  "continue_page =
     \<lparr>href = ''https://a.io/about'', hostname = ''a.io'',
      title = ''About us'', scrollX = 0, scrollY = 0,
      querySelectorAll = (\<lambda>sel. if sel = sel_score_buttons then [continue_button] else [])\<rparr>"

definition form_page :: page where
  "form_page =
     \<lparr>href = ''https://a.io/about'', hostname = ''a.io'',
      title = ''About us'', scrollX = 0, scrollY = 0,
      querySelectorAll = (\<lambda>sel. if sel = sel_score_buttons then [submit_input] else [])\<rparr>"

definition icon_page :: page where
  "icon_page =
     \<lparr>href = ''https://a.io/about'', hostname = ''a.io'',
      title = ''About us'', scrollX = 0, scrollY = 0,
      querySelectorAll = (\<lambda>sel. if sel = sel_score_buttons then [icon_link] else [])\<rparr>"

text \<open>A checkout page with every signal: address, button, price, card input, summary.\<close>

definition checkout_page :: page where
  "checkout_page =
     \<lparr>href = ''https://a.io/Checkout'', hostname = ''a.io'',
      title = ''Checkout - Shop'', scrollX = 0, scrollY = 0,
      querySelectorAll = (\<lambda>sel.
        if sel = sel_score_buttons \<or> sel = sel_shield_candidates then [buy_button]
        else if sel = sel_price_display then [el0\<lparr>eid := 2, textContent := Some ''$1,234.50''\<rparr>]
        else if sel = sel_payment_input then [el0\<lparr>eid := 3\<rparr>]
        else if sel = sel_order_summary then [el0\<lparr>eid := 4\<rparr>]
        else [])\<rparr>"

text \<open>The same document after the address has changed.\<close>

definition checkout_page_step2 :: page where
  "checkout_page_step2 = checkout_page\<lparr>href := ''https://a.io/Checkout#pay''\<rparr>"

text \<open>A page with no signal at all.\<close>

definition blank_page :: page where
  "blank_page =
     \<lparr>href = ''https://a.io/about'', hostname = ''a.io'',
      title = ''About us'', scrollX = 0, scrollY = 0,
      querySelectorAll = (\<lambda>sel. [])\<rparr>"

text \<open>A cart page without a purchase button: 30 for the address and 30 for the document.\<close>

definition cart_page :: page where
  "cart_page =
     \<lparr>href = ''https://a.io/cart'', hostname = ''a.io'',
      title = ''Your cart'', scrollX = 0, scrollY = 0,
      querySelectorAll = (\<lambda>sel.
        if sel = sel_price_display then [el0\<lparr>eid := 2, textContent := Some ''$19.99''\<rparr>]
        else if sel = sel_payment_input then [el0\<lparr>eid := 3\<rparr>]
        else if sel = sel_order_summary then [el0\<lparr>eid := 4\<rparr>]
        else [])\<rparr>"

text \<open>The same page without its order summary: 30 and 25.\<close>

definition cart_page_no_summary :: page where
  "cart_page_no_summary =
     \<lparr>href = ''https://a.io/cart'', hostname = ''a.io'',
      title = ''Your cart'', scrollX = 0, scrollY = 0,
      querySelectorAll = (\<lambda>sel.
        if sel = sel_price_display then [el0\<lparr>eid := 2, textContent := Some ''$19.99''\<rparr>]
        else if sel = sel_payment_input then [el0\<lparr>eid := 3\<rparr>]
        else [])\<rparr>"

text \<open>A product page with two purchase buttons, one of them without a layout box.\<close>

definition item_page :: page where
  "item_page =
     \<lparr>href = ''https://a.io/item'', hostname = ''a.io'',
      title = ''Blue Widget | Shop'', scrollX = 0, scrollY = 100,
      querySelectorAll = (\<lambda>sel.
        if sel = sel_shield_candidates then [buy_button, hidden_button] else [])\<rparr>"

definition item_page_step2 :: page where
  "item_page_step2 = item_page\<lparr>href := ''https://a.io/item#2''\<rparr>"

text \<open>
  A product page whose first name selector finds a one-character text, and a page whose
  title element is usable.
\<close>

definition short_title_page :: page where
  "short_title_page =
     \<lparr>href = ''https://a.io/x'', hostname = ''a.io'',
      title = ''Shop'', scrollX = 0, scrollY = 0,
      querySelectorAll = (\<lambda>sel.
        if sel = ''#productTitle'' then [el0\<lparr>eid := 6, textContent := Some ''X''\<rparr>]
        else if sel = ''.sc-product-title'' then
          [el0\<lparr>eid := 7, textContent := Some ''Blue Widget''\<rparr>]
        else [])\<rparr>"

definition product_page :: page where
  "product_page =
     \<lparr>href = ''https://a.io/p'', hostname = ''a.io'',
      title = ''Shop'', scrollX = 0, scrollY = 0,
      querySelectorAll = (\<lambda>sel.
        if sel = ''#productTitle'' then [el0\<lparr>eid := 6, textContent := Some '' Blue Widget ''\<rparr>]
        else if sel = ''.a-price .a-offscreen'' then
          [el0\<lparr>eid := 8, textContent := Some ''$1,234.50''\<rparr>]
        else [])\<rparr>"

text \<open>The state of a script that has done nothing yet.\<close>

definition idle :: detector where
  "idle = \<lparr>handledUrl = None, overlayActive = False, pendingButton = None,
            shieldedButtons = [], body_shields = [], next_sid = 0,
            lastAutoDetection = 0, lastUrl = [], proceedUntil = None,
            sent = [], clicks = []\<rparr>"

text \<open>Stored data and messages of the coordinator.\<close>

definition widget :: product_info where
  "widget = \<lparr>name = ''Blue Widget'', price = 50, category = ''general'',
              url = ''https://www.amazon.com/item'', image = None\<rparr>"

definition store0 :: storage where
  "store0 =
     \<lparr>enabled = Some True,
      settings = Some \<lparr>set_frictionLevel = 3, enabledSites = [''amazon.com'', ''ebay.com''],
                       quietHours = Some (''22'', ''06''), notifications = True\<rparr>,
      stats = Some \<lparr>savedToday = 0, savedTotal = 0, streak = 0\<rparr>,
      purchaseHistory = Some [],
      rateLimitInfo = None\<rparr>"

text \<open>
  On the numbers of the examples (0, 50 and 100) the rounded sum is the exact sum.
\<close>

definition env0 :: bg_env where
  "env0 = \<lparr>env_now = 1000000, env_hour = 14, env_uuid = ''e-1'', env_rnd = (\<lambda>n. 0),
            env_fetch = FetchRejected None, env_impact = None, env_add = (\<lambda>x y. x + y)\<rparr>"

text \<open>The stored settings with a quiet window from 22:00 to 06:00, and the hour 23.\<close>

definition store_quiet :: storage where
  "store_quiet =
     store0\<lparr>settings :=
               Some \<lparr>set_frictionLevel = 3, enabledSites = [''amazon.com'', ''ebay.com''],
                     quietHours = Some (''22:00'', ''06:00''), notifications = True\<rparr>\<rparr>"

definition env_late :: bg_env where
  "env_late = env0\<lparr>env_hour := 23\<rparr>"

definition detected0 :: detected_msg where
  "detected0 = \<lparr>msg_product = widget, msg_site = ''www.amazon.com'', msg_confidence = 100\<rparr>"

definition pending0 :: history_entry where
  "pending0 =
     \<lparr>h_id = Some ''e-1'', h_eventId = Some ''e-1'', h_product = Some widget,
      h_site = Some ''www.amazon.com'', h_confidence = Some 100, h_timestamp = 1000000,
      h_category = None, h_riskLevel = Some Low, h_questionsAsked = [], h_userResponses = [],
      h_reflectionTime = 0, h_outcome = Pending, h_source = Some ''fallback''\<rparr>"

definition store1 :: storage where
  "store1 = store0\<lparr>purchaseHistory := Some [pending0]\<rparr>"

definition saved0 :: outcome_msg where
  "saved0 = \<lparr>om_eventId = ''e-1'', om_outcome = Saved, om_reflectionTime = 12\<rparr>"

text \<open>
  A run of the content script on the product page: the script loads, the user clicks the
  shield twice before any reply, the overlay of the first message is shown and its reply
  arrives, the user chooses to proceed, the overlay of the second message is shown and its
  reply arrives, and the poller sees a new address.
\<close>

definition double_click_run :: "(int \<times> page \<times> event) list" where
  "double_click_run =
     [(6000, item_page, ShieldClick buy_button),
      (6200, item_page, ShieldClick buy_button),
      (8000, item_page, TabMessage SHOW_OVERLAY),
      (8001, item_page, ShieldClickReply buy_button (Some True)),
      (9000, item_page, TabMessage PROCEED_WITH_PURCHASE),
      (9500, item_page, TabMessage SHOW_OVERLAY),
      (9501, item_page, ShieldClickReply buy_button (Some True)),
      (10000, item_page_step2, UrlPoll)]"

definition after_double_click :: detector where
  "after_double_click = run double_click_run (initial 5000 item_page None)"

text \<open>
  A run on the checkout page: the script loads and detects, the overlay is shown, the
  reply arrives.
\<close>

definition overlay_shown_run :: "(int \<times> page \<times> event) list" where
  "overlay_shown_run =
     [(8000, checkout_page, TabMessage SHOW_OVERLAY),
      (8001, checkout_page, AutoDetectReply (Some True))]"

definition overlay_shown :: detector where
  "overlay_shown = run overlay_shown_run (initial 5000 checkout_page None)"

section \<open>Evaluation on concrete strings\<close>

text \<open>
  Equations that evaluate the matcher from left to right and stop at the first
  character that differs.
\<close>

lemma match_here_Lit_Nil: "match_here (Lit [] # r) s = match_here r s"
  by simp

lemma match_here_Lit_Cons_Nil: "match_here (Lit (a # l) # r) [] = False"
  by simp

lemma match_here_Lit_Cons_Cons:
  "match_here (Lit (a # l) # r) (c # s) =
     (if canon c = canon a then match_here (Lit l # r) s else False)"
  by auto

lemma match_here_WsStar_Cons:
  "match_here (WsStar # r) (c # cs) =
     (if match_here r (c # cs) then True
      else if is_ws c then match_here (WsStar # r) cs else False)"
  by simp

lemma search_Cons: "search as (c # cs) = (if match_here as (c # cs) then True else search as cs)"
  by simp

lemma list_ex_Cons_if: "list_ex P (x # xs) = (if P x then True else list_ex P xs)"
  by simp

lemmas match_eval = match_here.simps(1) match_here_Lit_Nil match_here_Lit_Cons_Nil
  match_here_Lit_Cons_Cons match_here.simps(3) match_here_WsStar_Cons
  search.simps(1) search_Cons list_ex_Cons_if

lemmas char_eval = code_def is_ws_def is_digit_def lower_char_def canon_def toLowerCase_def
  char_of_def bit_Suc_0_iff

lemmas selector_eval = sel_score_buttons_def sel_price_display_def sel_payment_input_def
  sel_order_summary_def sel_shield_candidates_def

lemma buy_button_is_purchase: "isPurchaseButton buy_button"
  by (simp del: match_here.simps search.simps list_ex_Cons_iff
        add: isPurchaseButton_def PURCHASE_BUTTON_PATTERNS_def test_def button_text_def trim_def
          or_empty_def buy_button_def el0_def match_eval char_eval)

lemma hidden_button_is_purchase: "isPurchaseButton hidden_button"
  by (simp del: match_here.simps search.simps list_ex_Cons_iff
        add: isPurchaseButton_def PURCHASE_BUTTON_PATTERNS_def test_def button_text_def trim_def
          or_empty_def hidden_button_def el0_def match_eval char_eval)

lemma checkout_url_score: "getUrlScore checkout_page = 30"
  by (simp del: match_here.simps search.simps list_ex_Cons_iff
        add: getUrlScore_def CHECKOUT_URL_PATTERNS_def test_def checkout_page_def
          match_eval char_eval)

lemma cart_url_score: "getUrlScore cart_page = 30"
  by (simp del: match_here.simps search.simps list_ex_Cons_iff
        add: getUrlScore_def CHECKOUT_URL_PATTERNS_def test_def cart_page_def
          match_eval char_eval)

lemma blank_url_score: "getUrlScore blank_page = 0"
  by (simp del: match_here.simps search.simps list_ex_Cons_iff
        add: getUrlScore_def CHECKOUT_URL_PATTERNS_def test_def blank_page_def
          match_eval char_eval)

lemma checkout_page_queries:
  "querySelectorAll checkout_page sel_score_buttons = [buy_button]
   \<and> querySelectorAll checkout_page sel_shield_candidates = [buy_button]
   \<and> querySelectorAll checkout_page sel_price_display \<noteq> []
   \<and> querySelectorAll checkout_page sel_payment_input \<noteq> []
   \<and> querySelector checkout_page sel_order_summary \<noteq> None"
  by (simp add: checkout_page_def querySelector_def selector_eval)

lemma cart_page_queries:
  "querySelectorAll cart_page sel_score_buttons = []
   \<and> querySelectorAll cart_page sel_price_display \<noteq> []
   \<and> querySelectorAll cart_page sel_payment_input \<noteq> []
   \<and> querySelector cart_page sel_order_summary \<noteq> None"
  by (simp add: cart_page_def querySelector_def selector_eval)

lemma cart_page_no_summary_queries:
  "querySelectorAll cart_page_no_summary sel_score_buttons = []
   \<and> querySelectorAll cart_page_no_summary sel_price_display \<noteq> []
   \<and> querySelectorAll cart_page_no_summary sel_payment_input \<noteq> []
   \<and> querySelector cart_page_no_summary sel_order_summary = None"
  by (simp add: cart_page_no_summary_def querySelector_def selector_eval)

lemma blank_page_queries: "querySelectorAll blank_page sel = []"
  by (simp add: blank_page_def)

lemma cart_page_no_summary_href: "href cart_page_no_summary = href cart_page"
  by (simp add: cart_page_no_summary_def cart_page_def)

section \<open>The scoring engine\<close>

lemma url_loop_eq:
  "url_loop u pats = (if (\<exists>pat\<in>set pats. test pat u) then 30 else 0)"
  by (induction pats) auto

lemma button_loop_eq:
  "button_loop bs = (if (\<exists>b\<in>set bs. isPurchaseButton b) then 40 else 0)"
  by (induction bs) auto

lemma isPurchaseButton_iff:
  "isPurchaseButton b \<longleftrightarrow> (\<exists>pat\<in>set PURCHASE_BUTTON_PATTERNS. test pat (button_text b))"
  by (simp add: isPurchaseButton_def list_ex_iff)

lemma getDomScore_eq:
  "getDomScore p =
     min (10 * of_bool (querySelectorAll p sel_price_display \<noteq> [])
          + 15 * of_bool (querySelectorAll p sel_payment_input \<noteq> [])
          + 5 * of_bool (querySelector p sel_order_summary \<noteq> None)) 30"
  by (simp add: getDomScore_def Let_def)

lemma getDomScore_range: "0 \<le> getDomScore p \<and> getDomScore p \<le> 30"
  by (simp add: getDomScore_eq)

lemma getUrlScore_eq:
  "getUrlScore p =
     (if (\<exists>pat\<in>set CHECKOUT_URL_PATTERNS. test pat (toLowerCase (href p))) then 30 else 0)"
  by (simp add: getUrlScore_def url_loop_eq)

lemma getButtonScore_eq:
  "getButtonScore p =
     (if (\<exists>b\<in>set (querySelectorAll p sel_score_buttons).
            \<exists>pat\<in>set PURCHASE_BUTTON_PATTERNS. test pat (button_text b)) then 40 else 0)"
  by (simp add: getButtonScore_def button_loop_eq isPurchaseButton_iff)

lemma checkout_page_total: "totalScore checkout_page = 100"
  using checkout_page_queries buy_button_is_purchase
  by (simp add: totalScore_def checkout_url_score getButtonScore_def getDomScore_eq)

lemma blank_page_total: "totalScore blank_page = 0"
  by (simp add: totalScore_def blank_url_score getButtonScore_def getDomScore_eq
        querySelector_def blank_page_queries)

lemma cart_page_total: "totalScore cart_page = 60"
  using cart_page_queries
  by (simp add: totalScore_def cart_url_score getButtonScore_def getDomScore_eq)

lemma cart_page_no_summary_total: "totalScore cart_page_no_summary = 55"
  using cart_page_no_summary_queries cart_url_score
  by (simp add: totalScore_def getUrlScore_def cart_page_no_summary_href getButtonScore_def
        getDomScore_eq)

text \<open>
  The label of an element that the button score tests, with the chain of \<open>||\<close> written
  out: the trimmed text when it is non-empty, else the value when it is non-empty, else
  the attribute \<open>aria-label\<close>, else the empty string.
\<close>

lemma button_text_chain:
  "button_text b =
     (if (case textContent b of None \<Rightarrow> [] | Some t \<Rightarrow> trim t) \<noteq> []
      then (case textContent b of None \<Rightarrow> [] | Some t \<Rightarrow> trim t)
      else if (case val b of None \<Rightarrow> [] | Some v \<Rightarrow> v) \<noteq> []
      then (case val b of None \<Rightarrow> [] | Some v \<Rightarrow> v)
      else (case map_of (attrs b) ''aria-label'' of None \<Rightarrow> [] | Some a \<Rightarrow> a))"
  by (simp add: button_text_def or_empty_def getAttribute_def split: option.splits)

lemma continue_button_text: "button_text continue_button = ''Continue''"
  by (simp add: button_text_def or_empty_def continue_button_def el0_def trim_def char_eval)

lemma submit_input_text: "button_text submit_input = ''Buy now''"
  by (simp add: button_text_def or_empty_def submit_input_def el0_def trim_def char_eval)

lemma icon_link_text: "button_text icon_link = ''Checkout''"
  by (simp add: button_text_def or_empty_def icon_link_def el0_def trim_def char_eval
        getAttribute_def)

lemma continue_button_not_purchase: "\<not> isPurchaseButton continue_button"
  by (simp del: match_here.simps search.simps list_ex_Cons_iff
        add: isPurchaseButton_def PURCHASE_BUTTON_PATTERNS_def test_def continue_button_text
          match_eval char_eval)

lemma submit_input_is_purchase: "isPurchaseButton submit_input"
  by (simp del: match_here.simps search.simps list_ex_Cons_iff
        add: isPurchaseButton_def PURCHASE_BUTTON_PATTERNS_def test_def submit_input_text
          match_eval char_eval)

lemma icon_link_is_purchase: "isPurchaseButton icon_link"
  by (simp del: match_here.simps search.simps list_ex_Cons_iff
        add: isPurchaseButton_def PURCHASE_BUTTON_PATTERNS_def test_def icon_link_text
          match_eval char_eval)

lemma buy_now_matches: "test (PURCHASE_BUTTON_PATTERNS ! 0) ''Buy now''"
  by (simp del: match_here.simps search.simps list_ex_Cons_iff
        add: PURCHASE_BUTTON_PATTERNS_def test_def match_eval char_eval)

lemma proceed_matches: "test (PURCHASE_BUTTON_PATTERNS ! 7) ''Proceed to checkout''"
  by (simp del: match_here.simps search.simps list_ex_Cons_iff
        add: PURCHASE_BUTTON_PATTERNS_def test_def match_eval char_eval)

lemma label_pages_queries:
  "querySelectorAll continue_page sel_score_buttons = [continue_button]
   \<and> querySelectorAll form_page sel_score_buttons = [submit_input]
   \<and> querySelectorAll icon_page sel_score_buttons = [icon_link]"
  by (simp add: continue_page_def form_page_def icon_page_def)

text \<open>
  Claim C1, as the code has it. The confidence score is the sum of three sub-scores: 30
  when a checkout pattern matches the lower-cased address and 0 otherwise; 40 when, for
  some element that the selector \<open>button, input[type='submit'], a[role='button']\<close> finds,
  a purchase pattern matches the label of the element, and 0 otherwise, where the label is
  the first non-empty of the trimmed text, the value and the attribute \<open>aria-label\<close> (a
  value or an \<open>aria-label\<close> behind a non-empty one is never tested); and for the document
  10 for a price element, 15 for a payment-card input and 5 for an order summary, capped
  at 30. The total lies between 0 and 100, is 100 when every signal is present and 0 when
  none is.
\<close>

theorem confidence_score_first_label:
  fixes p :: page
  defines "text_of \<equiv> \<lambda>b. (case textContent b of None \<Rightarrow> [] | Some t \<Rightarrow> trim t)"
    and "value_of \<equiv> \<lambda>b. (case val b of None \<Rightarrow> [] | Some v \<Rightarrow> v)"
    and "aria_of \<equiv> \<lambda>b. (case map_of (attrs b) ''aria-label'' of None \<Rightarrow> [] | Some a \<Rightarrow> a)"
  defines "label \<equiv> \<lambda>b. if text_of b \<noteq> [] then text_of b
                        else if value_of b \<noteq> [] then value_of b else aria_of b"
  defines "url_signal \<equiv> \<exists>pat\<in>set CHECKOUT_URL_PATTERNS. test pat (toLowerCase (href p))"
    and "button_signal \<equiv>
           \<exists>b\<in>set (querySelectorAll p ''button, input[type='submit'], a[role='button']'').
             \<exists>pat\<in>set PURCHASE_BUTTON_PATTERNS. test pat (label b)"
    and "price_signal \<equiv> querySelectorAll p sel_price_display \<noteq> []"
    and "card_signal \<equiv> querySelectorAll p sel_payment_input \<noteq> []"
    and "summary_signal \<equiv> querySelector p sel_order_summary \<noteq> None"
  shows "getUrlScore p = (if url_signal then 30 else 0)
   \<and> getButtonScore p = (if button_signal then 40 else 0)
   \<and> getDomScore p =
       min (10 * of_bool price_signal + 15 * of_bool card_signal + 5 * of_bool summary_signal) 30
   \<and> totalScore p = getUrlScore p + getButtonScore p + getDomScore p
   \<and> 0 \<le> totalScore p \<and> totalScore p \<le> 100
   \<and> (url_signal \<and> button_signal \<and> price_signal \<and> card_signal \<and> summary_signal
        \<longrightarrow> totalScore p = 100)
   \<and> (\<not> url_signal \<and> \<not> button_signal \<and> \<not> price_signal \<and> \<not> card_signal
        \<and> \<not> summary_signal \<longrightarrow> totalScore p = 0)"
proof -
  have l: "\<And>b. label b = button_text b"
    unfolding label_def text_of_def value_of_def aria_of_def
    by (simp only: button_text_chain)
  have u: "getUrlScore p = (if url_signal then 30 else 0)"
    unfolding url_signal_def by (rule getUrlScore_eq)
  have b: "getButtonScore p = (if button_signal then 40 else 0)"
    unfolding button_signal_def l sel_score_buttons_def [symmetric] by (rule getButtonScore_eq)
  have d: "getDomScore p =
       min (10 * of_bool price_signal + 15 * of_bool card_signal + 5 * of_bool summary_signal) 30"
    unfolding price_signal_def card_signal_def summary_signal_def by (rule getDomScore_eq)
  have t: "totalScore p = getUrlScore p + getButtonScore p + getDomScore p"
    by (simp add: totalScore_def)
  have ur: "0 \<le> getUrlScore p \<and> getUrlScore p \<le> 30" by (simp add: u)
  have br: "0 \<le> getButtonScore p \<and> getButtonScore p \<le> 40" by (simp add: b)
  have range: "0 \<le> totalScore p \<and> totalScore p \<le> 100"
    using ur br getDomScore_range [of p] by (simp add: t)
  have all: "url_signal \<and> button_signal \<and> price_signal \<and> card_signal \<and> summary_signal
        \<longrightarrow> totalScore p = 100"
    by (simp add: t u b d)
  have none: "\<not> url_signal \<and> \<not> button_signal \<and> \<not> price_signal \<and> \<not> card_signal
        \<and> \<not> summary_signal \<longrightarrow> totalScore p = 0"
    by (simp add: t u b d)
  from u b d t range all none show ?thesis by blast
qed

text \<open>
  The checkout page with every signal and the page with none; a submit input whose value
  alone names a purchase and a link whose \<open>aria-label\<close> alone does score 40; the button
  with the text \<open>Continue\<close> scores 0.
\<close>

theorem confidence_score_first_label_witness:
  "totalScore checkout_page = 100
   \<and> totalScore blank_page = 0
   \<and> getButtonScore form_page = 40
   \<and> getButtonScore icon_page = 40
   \<and> getButtonScore continue_page = 0"
proof -
  note bt = button_text_chain [symmetric] sel_score_buttons_def [symmetric]
  have 1: "\<exists>pat\<in>set CHECKOUT_URL_PATTERNS. test pat (toLowerCase (href checkout_page))"
    using confidence_score_first_label [of checkout_page] checkout_url_score
    by (simp split: if_splits)
  have 2: "\<exists>b\<in>set (querySelectorAll checkout_page sel_score_buttons).
         \<exists>pat\<in>set PURCHASE_BUTTON_PATTERNS. test pat (button_text b)"
    using checkout_page_queries buy_button_is_purchase by (simp add: isPurchaseButton_iff)
  have 3: "totalScore checkout_page = 100"
    using confidence_score_first_label [of checkout_page] 1 2 checkout_page_queries
    unfolding bt by blast
  have 4: "\<not> (\<exists>pat\<in>set CHECKOUT_URL_PATTERNS. test pat (toLowerCase (href blank_page)))"
    using confidence_score_first_label [of blank_page] blank_url_score
    by (simp split: if_splits)
  have 5: "totalScore blank_page = 0"
    using confidence_score_first_label [of blank_page] 4
    unfolding bt by (simp add: blank_page_queries querySelector_def)
  have 6: "getButtonScore form_page = 40"
    using confidence_score_first_label [of form_page, THEN conjunct2, THEN conjunct1]
      submit_input_is_purchase
    unfolding bt by (simp add: label_pages_queries isPurchaseButton_iff)
  have 7: "getButtonScore icon_page = 40"
    using confidence_score_first_label [of icon_page, THEN conjunct2, THEN conjunct1]
      icon_link_is_purchase
    unfolding bt by (simp add: label_pages_queries isPurchaseButton_iff)
  have 8: "getButtonScore continue_page = 0"
    using confidence_score_first_label [of continue_page, THEN conjunct2, THEN conjunct1]
      continue_button_not_purchase
    unfolding bt by (simp add: label_pages_queries isPurchaseButton_iff)
  from 3 5 6 7 8 show ?thesis by blast
qed

text \<open>
  Claim C1, as stated, at a page whose only interactive element is a button with the text
  \<open>Continue\<close>, the value \<open>Buy now\<close> and the \<open>aria-label\<close> \<open>Proceed to checkout\<close>: the
  value and the label each match a purchase pattern, and the button score is 0.
\<close>

theorem unread_value_scores_nothing_counterexample:
  "querySelectorAll continue_page sel_score_buttons = [continue_button]
   \<and> val continue_button = Some ''Buy now''
   \<and> test (PURCHASE_BUTTON_PATTERNS ! 0) ''Buy now''
   \<and> getAttribute continue_button ''aria-label'' = Some ''Proceed to checkout''
   \<and> test (PURCHASE_BUTTON_PATTERNS ! 7) ''Proceed to checkout''
   \<and> getButtonScore continue_page = 0"
  using continue_button_not_purchase buy_now_matches proceed_matches
  by (simp add: label_pages_queries getButtonScore_def getAttribute_def continue_button_def
        el0_def)

section \<open>Automatic detection\<close>

text \<open>
  Claim C2. An automatic detection attempt on an address that is not the handled one,
  outside a suppression window and at least 2000 ms after the last automatic detection
  sends one \<open>PURCHASE_DETECTED\<close> message, carrying the total as its confidence, when the
  total is at least 60, and sends nothing when the total is below 60.
\<close>

theorem auto_detect_threshold:
  assumes "handledUrl s \<noteq> Some (href p)"
    and "\<not> isSuppressed now s"
    and "now - lastAutoDetection s \<ge> 2000"
  shows "(totalScore p \<ge> 60 \<longrightarrow>
            sent (autoDetectPurchaseIntent now p s) =
              sent s @ [\<lparr>msg_product = extractProductInfo p, msg_site = hostname p,
                         msg_confidence = totalScore p\<rparr>])
         \<and> (totalScore p < 60 \<longrightarrow> sent (autoDetectPurchaseIntent now p s) = sent s)"
  using assms by (simp add: autoDetectPurchaseIntent_def AUTO_DETECT_DEBOUNCE_MS_def)

lemma idle_ready:
  "handledUrl idle = None \<and> \<not> isSuppressed 5000 idle \<and> 5000 - lastAutoDetection idle \<ge> 2000
   \<and> sent idle = []"
  by (simp add: idle_def isSuppressed_def)

theorem auto_detect_threshold_witness:
  "length (sent (autoDetectPurchaseIntent 5000 cart_page idle)) = 1
   \<and> map msg_confidence (sent (autoDetectPurchaseIntent 5000 cart_page idle)) = [60]
   \<and> sent (autoDetectPurchaseIntent 5000 cart_page_no_summary idle) = []"
  using auto_detect_threshold [of idle cart_page 5000]
    auto_detect_threshold [of idle cart_page_no_summary 5000]
    cart_page_total cart_page_no_summary_total idle_ready
  by simp

section \<open>Risk classification\<close>

lemma risk_levels_agree_low_friction:
  assumes "req_frictionLevel r < 4"
    and "timeOfDay c = getTimeOfDay (req_hour r)"
    and "recentPurchaseCount c = req_recentPurchaseCount r"
  shows "determineLocalRiskLevel (req_price r) c = determineRiskLevel r"
  using assms by (simp add: determineLocalRiskLevel_def determineRiskLevel_def Let_def)

text \<open>
  Claim C7. The claim is that the classifier of the extension and the classifier of the
  server agree on every input. The server adds one point for a friction level of 4 or
  more; \<open>determineLocalRiskLevel\<close> has no such term. At a price of 250, at 22 h, with no
  recent purchase and friction level 5 the extension answers medium (2 + 1) and the
  server high (2 + 1 + 1).
\<close>

theorem risk_classifiers_disagree:
  "getTimeOfDay 22 = Night
   \<and> determineLocalRiskLevel 250
        \<lparr>timeOfDay = Night, recentPurchaseCount = 0, frictionLevel = 5\<rparr> = Medium
   \<and> determineRiskLevel
        \<lparr>req_price = 250, req_hour = 22, req_recentPurchaseCount = 0, req_frictionLevel = 5\<rparr>
       = High"
  by (simp add: determineLocalRiskLevel_def determineRiskLevel_def getTimeOfDay_def)

section \<open>Outcome resolution\<close>

lemma findIndex_Some:
  "findIndex P xs = Some i \<Longrightarrow> i < length xs \<and> P (xs ! i) \<and> (\<forall>j<i. \<not> P (xs ! j))"
proof (induction xs arbitrary: i)
  case Nil
  then show ?case by simp
next
  case (Cons x xs)
  show ?case
  proof (cases "P x")
    case True
    with Cons.prems show ?thesis by simp
  next
    case False
    with Cons.prems obtain k where k: "findIndex P xs = Some k" "i = Suc k" by auto
    from Cons.IH [OF k(1)] False k(2) show ?thesis
      by (auto simp: less_Suc_eq_0_disj)
  qed
qed

lemma findIndex_None: "findIndex P xs = None \<longleftrightarrow> (\<forall>x\<in>set xs. \<not> P x)"
  by (induction xs) auto

lemma findIndex_update:
  "findIndex P xs = Some i \<Longrightarrow> P e \<Longrightarrow> findIndex P (xs[i := e]) = Some i"
proof (induction xs arbitrary: i)
  case Nil
  then show ?case by simp
next
  case (Cons x xs)
  then show ?case by (cases i) (auto split: if_splits)
qed

lemma findIndex_append_new:
  "findIndex P xs = None \<Longrightarrow> P e \<Longrightarrow> findIndex P (xs @ [e]) = Some (length xs)"
  by (induction xs) (auto split: if_splits)

text \<open>
  Claim C8, as the code has it. The coordinator keeps no record that an event is
  resolved. A \<open>PURCHASE_OUTCOME\<close> with outcome saved or cooled-off throws when no \<open>stats\<close>
  are stored. Otherwise it takes the first event whose \<open>eventId\<close> or \<open>id\<close> is the
  identifier of the message, overwrites the outcome and the reflection time of that event,
  or appends a record for the identifier when there is no such event, and adds the price
  of the product of the event (0 for a record without a product or an unknown identifier)
  to \<open>savedToday\<close> and \<open>savedTotal\<close>, leaving the rest of the storage as it was. Handling
  the same message a second time leaves the purchase history as the first time left it
  and adds the same amount to both counters again.
\<close>

theorem outcome_credit_repeats:
  fixes env env' :: bg_env and st :: storage and m :: outcome_msg
  defines "history \<equiv> (case purchaseHistory st of Some h \<Rightarrow> h | None \<Rightarrow> [])"
  defines "index \<equiv>
     findIndex (\<lambda>e. h_eventId e = Some (om_eventId m) \<or> h_id e = Some (om_eventId m)) history"
  defines "amount \<equiv>
     (case index of
        Some i \<Rightarrow> (case h_product (history ! i) of Some pr \<Rightarrow> price pr | None \<Rightarrow> 0)
      | None \<Rightarrow> 0)"
  defines "history1 \<equiv>
     (case index of
        Some i \<Rightarrow> history[i := (history ! i)\<lparr>h_outcome := om_outcome m,
                                              h_reflectionTime := om_reflectionTime m\<rparr>]
      | None \<Rightarrow> history @ [orphan_entry env m])"
  defines "credit \<equiv> \<lambda>e stt.
     stt\<lparr>savedToday := env_add e (savedToday stt) amount,
         savedTotal := env_add e (savedTotal stt) amount\<rparr>"
  assumes saved: "om_outcome m = Saved \<or> om_outcome m = Cooled_off"
  shows "(stats st = None \<longrightarrow> handlePurchaseOutcome env st m = Inl TypeError)
   \<and> (\<forall>stt. stats st = Some stt \<longrightarrow>
         handlePurchaseOutcome env st m =
           Inr ((True, amount),
                st\<lparr>stats := Some (credit env stt), purchaseHistory := Some history1\<rparr>)
         \<and> handlePurchaseOutcome env'
             (st\<lparr>stats := Some (credit env stt), purchaseHistory := Some history1\<rparr>) m =
           Inr ((True, amount),
                st\<lparr>stats := Some (credit env' (credit env stt)),
                   purchaseHistory := Some history1\<rparr>))"
proof -
  let ?P = "\<lambda>e. h_eventId e = Some (om_eventId m) \<or> h_id e = Some (om_eventId m)"
  have none: "stats st = None \<longrightarrow> handlePurchaseOutcome env st m = Inl TypeError"
    using saved by (simp add: handlePurchaseOutcome_def Let_def split: option.splits)
  have some: "handlePurchaseOutcome env st m =
           Inr ((True, amount),
                st\<lparr>stats := Some (credit env stt), purchaseHistory := Some history1\<rparr>)
         \<and> handlePurchaseOutcome env'
             (st\<lparr>stats := Some (credit env stt), purchaseHistory := Some history1\<rparr>) m =
           Inr ((True, amount),
                st\<lparr>stats := Some (credit env' (credit env stt)),
                   purchaseHistory := Some history1\<rparr>)"
    if st: "stats st = Some stt" for stt
  proof (cases "findIndex ?P history")
    case None
    have i: "index = None" using None by (simp add: index_def)
    have a0: "amount = 0" by (simp add: amount_def i)
    have h1: "history1 = history @ [orphan_entry env m]" by (simp add: history1_def i)
    let ?st1 = "st\<lparr>stats := Some (credit env stt), purchaseHistory := Some history1\<rparr>"
    have first: "handlePurchaseOutcome env st m = Inr ((True, amount), ?st1)"
      using None st saved
      by (simp add: handlePurchaseOutcome_def Let_def history_def [symmetric] a0 h1 credit_def)
    have found: "findIndex ?P history1 = Some (length history)"
      unfolding h1 by (rule findIndex_append_new [OF None]) (simp add: orphan_entry_def)
    have same: "history1[length history :=
        (history1 ! length history)\<lparr>h_outcome := om_outcome m,
                                     h_reflectionTime := om_reflectionTime m\<rparr>] = history1"
      by (simp add: h1 orphan_entry_def)
    have prod: "h_product (history1 ! length history) = None"
      by (simp add: h1 orphan_entry_def)
    have second: "handlePurchaseOutcome env' ?st1 m =
        Inr ((True, amount),
             st\<lparr>stats := Some (credit env' (credit env stt)),
                purchaseHistory := Some history1\<rparr>)"
      using saved
      by (simp add: handlePurchaseOutcome_def Let_def found same prod a0 credit_def)
    from first second show ?thesis by simp
  next
    case (Some i)
    note facts = findIndex_Some [OF Some]
    have ix: "index = Some i" using Some by (simp add: index_def)
    let ?ev = "history ! i"
    have a: "amount = (case h_product ?ev of Some pr \<Rightarrow> price pr | None \<Rightarrow> 0)"
      by (simp add: amount_def ix)
    let ?e = "?ev\<lparr>h_outcome := om_outcome m, h_reflectionTime := om_reflectionTime m\<rparr>"
    have h1: "history1 = history[i := ?e]" by (simp add: history1_def ix)
    let ?st1 = "st\<lparr>stats := Some (credit env stt), purchaseHistory := Some history1\<rparr>"
    have first: "handlePurchaseOutcome env st m = Inr ((True, amount), ?st1)"
      using Some st saved
      by (simp add: handlePurchaseOutcome_def Let_def history_def [symmetric] a h1 credit_def)
    have Pe: "?P ?e" using facts by simp
    have found: "findIndex ?P history1 = Some i"
      unfolding h1 by (rule findIndex_update [OF Some Pe])
    have at: "history1 ! i = ?e" using facts by (simp add: h1)
    have same: "history1[i := (history1 ! i)\<lparr>h_outcome := om_outcome m,
                                            h_reflectionTime := om_reflectionTime m\<rparr>] = history1"
      unfolding at by (simp add: h1)
    have prod: "h_product (history1 ! i) = h_product ?ev" by (simp add: at)
    have second: "handlePurchaseOutcome env' ?st1 m =
        Inr ((True, amount),
             st\<lparr>stats := Some (credit env' (credit env stt)),
                purchaseHistory := Some history1\<rparr>)"
      using saved
      by (simp add: handlePurchaseOutcome_def Let_def found same prod a credit_def)
    from first second show ?thesis by simp
  qed
  from none some show ?thesis by blast
qed

lemma store1_lookup:
  "purchaseHistory store1 = Some [pending0]
   \<and> stats store1 = Some \<lparr>savedToday = 0, savedTotal = 0, streak = 0\<rparr>
   \<and> findIndex (\<lambda>e. h_eventId e = Some (om_eventId saved0) \<or> h_id e = Some (om_eventId saved0))
       [pending0] = Some 0
   \<and> h_product pending0 = Some widget \<and> price widget = 50
   \<and> om_outcome saved0 = Saved \<and> om_reflectionTime saved0 = 12
   \<and> env_add env0 = (\<lambda>x y. x + y)"
  by (simp add: store1_def store0_def saved0_def pending0_def widget_def env0_def)

text \<open>
  A stored pending event with price 50, resolved twice as saved; and the same message
  when no \<open>stats\<close> are stored.
\<close>

theorem outcome_credit_repeats_witness:
  "handlePurchaseOutcome env0 store1 saved0 =
     Inr ((True, 50),
          store1\<lparr>stats := Some \<lparr>savedToday = 50, savedTotal = 50, streak = 0\<rparr>,
                 purchaseHistory :=
                   Some [pending0\<lparr>h_outcome := Saved, h_reflectionTime := 12\<rparr>]\<rparr>)
   \<and> handlePurchaseOutcome env0
        (store1\<lparr>stats := Some \<lparr>savedToday = 50, savedTotal = 50, streak = 0\<rparr>,
                purchaseHistory :=
                  Some [pending0\<lparr>h_outcome := Saved, h_reflectionTime := 12\<rparr>]\<rparr>) saved0 =
     Inr ((True, 50),
          store1\<lparr>stats := Some \<lparr>savedToday = 100, savedTotal = 100, streak = 0\<rparr>,
                 purchaseHistory :=
                   Some [pending0\<lparr>h_outcome := Saved, h_reflectionTime := 12\<rparr>]\<rparr>)
   \<and> handlePurchaseOutcome env0 (store1\<lparr>stats := None\<rparr>) saved0 = Inl TypeError"
proof -
  have sv: "om_outcome saved0 = Saved \<or> om_outcome saved0 = Cooled_off"
    by (simp add: store1_lookup)
  have st: "stats store1 = Some \<lparr>savedToday = 0, savedTotal = 0, streak = 0\<rparr>"
    by (simp add: store1_lookup)
  note T = outcome_credit_repeats [OF sv, where env = env0 and env' = env0]
  from T [where st = store1, THEN conjunct2, rule_format, OF st]
  have two: "handlePurchaseOutcome env0 store1 saved0 =
     Inr ((True, 50),
          store1\<lparr>stats := Some \<lparr>savedToday = 50, savedTotal = 50, streak = 0\<rparr>,
                 purchaseHistory :=
                   Some [pending0\<lparr>h_outcome := Saved, h_reflectionTime := 12\<rparr>]\<rparr>)
   \<and> handlePurchaseOutcome env0
        (store1\<lparr>stats := Some \<lparr>savedToday = 50, savedTotal = 50, streak = 0\<rparr>,
                purchaseHistory :=
                  Some [pending0\<lparr>h_outcome := Saved, h_reflectionTime := 12\<rparr>]\<rparr>) saved0 =
     Inr ((True, 50),
          store1\<lparr>stats := Some \<lparr>savedToday = 100, savedTotal = 100, streak = 0\<rparr>,
                 purchaseHistory :=
                   Some [pending0\<lparr>h_outcome := Saved, h_reflectionTime := 12\<rparr>]\<rparr>)"
    by (simp add: store1_def store0_def saved0_def pending0_def widget_def env0_def)
  from T [where st = "store1\<lparr>stats := None\<rparr>", THEN conjunct1]
  have none: "handlePurchaseOutcome env0 (store1\<lparr>stats := None\<rparr>) saved0 = Inl TypeError"
    by simp
  from two none show ?thesis by blast
qed

lemma store1_first_outcome:
  "handlePurchaseOutcome env0 store1 saved0 =
     Inr ((True, 50),
          store1\<lparr>stats := Some \<lparr>savedToday = 50, savedTotal = 50, streak = 0\<rparr>,
                 purchaseHistory :=
                   Some [pending0\<lparr>h_outcome := Saved, h_reflectionTime := 12\<rparr>]\<rparr>)"
  by (simp add: handlePurchaseOutcome_def store1_def store0_def saved0_def pending0_def
        widget_def env0_def Let_def)

lemma store1_second_outcome:
  "handlePurchaseOutcome env0
     (store1\<lparr>stats := Some \<lparr>savedToday = 50, savedTotal = 50, streak = 0\<rparr>,
             purchaseHistory := Some [pending0\<lparr>h_outcome := Saved, h_reflectionTime := 12\<rparr>]\<rparr>)
     saved0 =
     Inr ((True, 50),
          store1\<lparr>stats := Some \<lparr>savedToday = 100, savedTotal = 100, streak = 0\<rparr>,
                 purchaseHistory :=
                   Some [pending0\<lparr>h_outcome := Saved, h_reflectionTime := 12\<rparr>]\<rparr>)"
  by (simp add: handlePurchaseOutcome_def store1_def store0_def saved0_def pending0_def
        widget_def env0_def Let_def)

text \<open>
  Claim C8, as stated, at a stored pending event with price 50: the first
  \<open>PURCHASE_OUTCOME\<close> with outcome saved brings \<open>savedTotal\<close> from 0 to 50, and the
  second, for the same identifier, brings it to 100.
\<close>

theorem outcome_twice_credits_twice_counterexample:
  "map_option savedTotal (stats store1) = Some 0
   \<and> map_option savedTotal
        (stats (snd (projr (handlePurchaseOutcome env0 store1 saved0)))) = Some 50
   \<and> map_option savedTotal
        (stats (snd (projr (handlePurchaseOutcome env0
                              (snd (projr (handlePurchaseOutcome env0 store1 saved0)))
                              saved0)))) = Some 100"
  by (simp add: store1_first_outcome store1_second_outcome) (simp add: store1_def store0_def)

section \<open>Fallback questions\<close>

lemma insert_random_set: "set (fst (insert_random rnd i x ys)) = insert x (set ys)"
proof (induction ys arbitrary: i)
  case Nil
  show ?case by simp
next
  case (Cons y ys)
  obtain zs j where zj: "insert_random rnd (Suc i) x ys = (zs, j)"
    by (cases "insert_random rnd (Suc i) x ys")
  have "set zs = insert x (set ys)" using Cons.IH [of "Suc i"] zj by simp
  with zj show ?case by auto
qed

lemma insert_random_length: "length (fst (insert_random rnd i x ys)) = Suc (length ys)"
proof (induction ys arbitrary: i)
  case Nil
  show ?case by simp
next
  case (Cons y ys)
  obtain zs j where zj: "insert_random rnd (Suc i) x ys = (zs, j)"
    by (cases "insert_random rnd (Suc i) x ys")
  have "length zs = Suc (length ys)" using Cons.IH [of "Suc i"] zj by simp
  with zj show ?case by auto
qed

lemma insert_random_distinct:
  "distinct (fst (insert_random rnd i x ys)) \<longleftrightarrow> x \<notin> set ys \<and> distinct ys"
proof (induction ys arbitrary: i)
  case Nil
  show ?case by simp
next
  case (Cons y ys)
  show ?case
  proof (cases "rnd i - 1 / 2 < 0")
    case True
    then show ?thesis by auto
  next
    case False
    obtain zs j where zj: "insert_random rnd (Suc i) x ys = (zs, j)"
      by (cases "insert_random rnd (Suc i) x ys")
    have s: "set zs = insert x (set ys)"
      using insert_random_set [of rnd "Suc i" x ys] zj by simp
    have d: "distinct zs \<longleftrightarrow> x \<notin> set ys \<and> distinct ys"
      using Cons.IH [of "Suc i"] zj by simp
    from False zj s d show ?thesis by auto
  qed
qed

lemma sort_random_set: "set (fst (sort_random rnd i xs)) = set xs"
proof (induction xs arbitrary: i)
  case Nil
  show ?case by simp
next
  case (Cons x xs)
  obtain ys j where yj: "sort_random rnd i xs = (ys, j)" by (cases "sort_random rnd i xs")
  have "set ys = set xs" using Cons.IH [of i] yj by simp
  then show ?case using yj by (simp add: insert_random_set)
qed

lemma sort_random_length: "length (fst (sort_random rnd i xs)) = length xs"
proof (induction xs arbitrary: i)
  case Nil
  show ?case by simp
next
  case (Cons x xs)
  obtain ys j where yj: "sort_random rnd i xs = (ys, j)" by (cases "sort_random rnd i xs")
  have "length ys = length xs" using Cons.IH [of i] yj by simp
  then show ?case using yj by (simp add: insert_random_length)
qed

lemma sort_random_distinct: "distinct (fst (sort_random rnd i xs)) \<longleftrightarrow> distinct xs"
proof (induction xs arbitrary: i)
  case Nil
  show ?case by simp
next
  case (Cons x xs)
  obtain ys j where yj: "sort_random rnd i xs = (ys, j)" by (cases "sort_random rnd i xs")
  have s: "set ys = set xs" using sort_random_set [of rnd i xs] yj by simp
  have d: "distinct ys \<longleftrightarrow> distinct xs" using Cons.IH [of i] yj by simp
  show ?case using yj s d by (simp add: insert_random_distinct)
qed

lemma fallback_pool: "length FALLBACK_QUESTIONS = 5 \<and> distinct FALLBACK_QUESTIONS"
  by (simp add: FALLBACK_QUESTIONS_def)

lemma getRandomFallbackQuestions_props:
  assumes "n \<le> 5"
  shows "length (getRandomFallbackQuestions rnd n) = n
         \<and> distinct (getRandomFallbackQuestions rnd n)
         \<and> set (getRandomFallbackQuestions rnd n) \<subseteq> set FALLBACK_QUESTIONS"
proof -
  let ?sh = "fst (sort_random rnd 0 FALLBACK_QUESTIONS)"
  have l: "length ?sh = 5" by (simp add: sort_random_length fallback_pool)
  have d: "distinct ?sh" by (simp add: sort_random_distinct fallback_pool)
  have s: "set ?sh = set FALLBACK_QUESTIONS" by (rule sort_random_set)
  have "set (take n ?sh) \<subseteq> set ?sh" by (rule set_take_subset)
  with l d s assms show ?thesis
    by (simp add: getRandomFallbackQuestions_def Let_def)
qed

lemma createFallbackResponse_props:
  "meta (createFallbackResponse rnd now product context impact err) =
     Some \<lparr>meta_clientId = ''local'', meta_timestamp = now, meta_source = ''fallback'',
           meta_error = err\<rparr>
   \<and> length (questions (createFallbackResponse rnd now product context impact err)) =
       (if frictionLevel context \<ge> 4 then 3 else 2)
   \<and> distinct (questions (createFallbackResponse rnd now product context impact err))
   \<and> set (questions (createFallbackResponse rnd now product context impact err))
       \<subseteq> set FALLBACK_QUESTIONS"
  using getRandomFallbackQuestions_props [of 3 rnd] getRandomFallbackQuestions_props [of 2 rnd]
  by (simp add: createFallbackResponse_def Let_def)

lemma callProxyAPI_failed:
  assumes "proxy_call_failed (env_fetch env)"
  shows "\<exists>reason. fst (fst (callProxyAPI env st product pc)) =
           createFallbackResponse (env_rnd env) (env_now env) product
             (build_context env st product pc) (env_impact env) (Some reason)"
  using assms
  by (auto simp: callProxyAPI_def proxy_catch_def proxy_call_failed_def Let_def
           split: fetch_outcome.splits sum.splits)

text \<open>
  Claim C6. When the call to the proxy fails (the fetch is rejected, the status is 429, or
  the status is outside 200 to 299), \<open>callProxyAPI\<close> returns a response: its meta data
  name the source \<open>fallback\<close> and carry a reason string; its questions are pairwise
  distinct members of the pool of five fallback questions; and there are three of them
  when the friction level of the context is at least 4 and two otherwise. Without an
  override the friction level of the context is the stored setting (3 when it is missing).
\<close>

theorem proxy_failure_gives_fallback:
  fixes env :: bg_env and st :: storage and product :: product_info
    and pc :: "context_override option"
  defines "ctx \<equiv> build_context env st product pc"
  defines "r \<equiv> fst (fst (callProxyAPI env st product pc))"
  assumes failed: "proxy_call_failed (env_fetch env)"
  shows "(\<exists>mt reason. meta r = Some mt \<and> meta_source mt = ''fallback''
                       \<and> meta_error mt = Some reason)
         \<and> length FALLBACK_QUESTIONS = 5
         \<and> distinct (questions r)
         \<and> set (questions r) \<subseteq> set FALLBACK_QUESTIONS
         \<and> length (questions r) = (if frictionLevel ctx \<ge> 4 then 3 else 2)
         \<and> (pc = None \<longrightarrow>
              frictionLevel ctx =
                (case settings st of
                   Some se \<Rightarrow> if set_frictionLevel se = 0 then 3 else set_frictionLevel se
                 | None \<Rightarrow> 3))"
proof -
  from callProxyAPI_failed [OF failed, of st product pc] obtain reason where
    r: "r = createFallbackResponse (env_rnd env) (env_now env) product ctx
              (env_impact env) (Some reason)"
    unfolding r_def ctx_def by blast
  note p = createFallbackResponse_props [of "env_rnd env" "env_now env" product ctx
      "env_impact env" "Some reason"]
  have m: "\<exists>mt reason. meta r = Some mt \<and> meta_source mt = ''fallback''
                       \<and> meta_error mt = Some reason"
    using p unfolding r by simp
  have f: "pc = None \<longrightarrow>
              frictionLevel ctx =
                (case settings st of
                   Some se \<Rightarrow> if set_frictionLevel se = 0 then 3 else set_frictionLevel se
                 | None \<Rightarrow> 3)"
    by (simp add: ctx_def build_context_def Let_def)
  from m p f fallback_pool show ?thesis unfolding r by blast
qed

theorem proxy_failure_gives_fallback_witness:
  "length (questions (fst (fst (callProxyAPI env0 store0 widget None)))) = 2
   \<and> distinct (questions (fst (fst (callProxyAPI env0 store0 widget None))))
   \<and> length (questions (fst (fst (callProxyAPI
        (env0\<lparr>env_fetch := FetchResponse
                \<lparr>status = 429, hdr_limit = None, hdr_remaining = None, hdr_reset = None,
                 json_as_error = Inl None, json_as_data = Inl None, text_body = Inl None\<rparr>\<rparr>)
        (store0\<lparr>settings := Some \<lparr>set_frictionLevel = 5, enabledSites = [],
                                  quietHours = None, notifications = True\<rparr>\<rparr>)
        widget None)))) = 3"
proof -
  have f1: "proxy_call_failed (env_fetch env0)"
    by (simp add: proxy_call_failed_def env0_def)
  have f2: "proxy_call_failed (env_fetch (env0\<lparr>env_fetch := FetchResponse
                \<lparr>status = 429, hdr_limit = None, hdr_remaining = None, hdr_reset = None,
                 json_as_error = Inl None, json_as_data = Inl None, text_body = Inl None\<rparr>\<rparr>))"
    by (simp add: proxy_call_failed_def)
  from proxy_failure_gives_fallback [OF f1, of store0 widget None]
    proxy_failure_gives_fallback [OF f2,
      of "store0\<lparr>settings := Some \<lparr>set_frictionLevel = 5, enabledSites = [],
                                  quietHours = None, notifications = True\<rparr>\<rparr>" widget None]
  show ?thesis by (simp add: store0_def)
qed

section \<open>The policy of the coordinator\<close>

lemma take_is_prefix: "take (length t) s = t \<longleftrightarrow> (\<exists>suf. s = t @ suf)"
  by (metis append_eq_conv_conj append_take_drop_id)

lemma str_includes_iff: "str_includes s t \<longleftrightarrow> (\<exists>pre suf. s = pre @ t @ suf)"
proof (induction s)
  case Nil
  show ?case by auto
next
  case (Cons c cs)
  have "(\<exists>pre suf. c # cs = pre @ t @ suf) \<longleftrightarrow>
        (\<exists>suf. c # cs = t @ suf) \<or> (\<exists>pre suf. cs = pre @ t @ suf)"
  proof
    assume "\<exists>pre suf. c # cs = pre @ t @ suf"
    then obtain pre suf where e: "c # cs = pre @ t @ suf" by blast
    show "(\<exists>suf. c # cs = t @ suf) \<or> (\<exists>pre suf. cs = pre @ t @ suf)"
    proof (cases pre)
      case Nil
      with e show ?thesis by auto
    next
      case (Cons a pre')
      with e have "cs = pre' @ t @ suf" by simp
      then show ?thesis by blast
    qed
  next
    assume "(\<exists>suf. c # cs = t @ suf) \<or> (\<exists>pre suf. cs = pre @ t @ suf)"
    then show "\<exists>pre suf. c # cs = pre @ t @ suf"
    proof
      assume "\<exists>suf. c # cs = t @ suf"
      then obtain suf where "c # cs = [] @ t @ suf" by auto
      then show ?thesis by blast
    next
      assume "\<exists>pre suf. cs = pre @ t @ suf"
      then obtain pre suf where "c # cs = (c # pre) @ t @ suf" by auto
      then show ?thesis by blast
    qed
  qed
  with Cons.IH show ?case
    by (simp only: str_includes.simps take_is_prefix)
qed

lemma callProxyAPI_keeps_history:
  "purchaseHistory (snd (callProxyAPI env st product pc)) = purchaseHistory st"
  by (simp add: callProxyAPI_def proxy_catch_def Let_def
           split: fetch_outcome.splits sum.splits)

lemma quiet_check_iff:
  "(case settings st of
      Some se \<Rightarrow> (case quietHours se of Some q \<Rightarrow> in_quiet_hours h q | None \<Rightarrow> False)
    | None \<Rightarrow> False) \<longleftrightarrow>
   (\<exists>se q. settings st = Some se \<and> quietHours se = Some q \<and> in_quiet_hours h q)"
  by (simp split: option.splits)

lemma site_check_iff:
  "(case settings st of
      Some se \<Rightarrow> length (enabledSites se) > 0 \<and>
                 \<not> list_ex (\<lambda>site. str_includes host site) (enabledSites se)
    | None \<Rightarrow> False) \<longleftrightarrow>
   \<not> (\<forall>se. settings st = Some se \<longrightarrow>
         enabledSites se = [] \<or>
         (\<exists>site\<in>set (enabledSites se). \<exists>pre suf. host = pre @ site @ suf))"
  by (auto simp: list_ex_iff str_includes_iff split: option.splits)

text \<open>The conversions and comparisons of the examples.\<close>

lemma hour_strings:
  "StringToNumber ''22'' = Finite 22 \<and> StringToNumber ''06'' = Finite 6
   \<and> StringToNumber ''22:00'' = NaN \<and> StringToNumber ''06:00'' = NaN"
  by (simp add: StringToNumber_def unsigned_decimal_def exponent_part_def trim_def Let_def
        char_eval)

lemma padded_hours_quiet:
  "in_quiet_hours 23 (''22'', ''06'') \<and> in_quiet_hours 5 (''22'', ''06'')
   \<and> \<not> in_quiet_hours 14 (''22'', ''06'')"
  by (simp add: in_quiet_hours_def number_ge_string_def number_lt_string_def hour_strings
        code_def)

lemma clock_strings_never_quiet: "\<not> in_quiet_hours h (''22:00'', ''06:00'')"
  by (simp add: in_quiet_hours_def number_ge_string_def number_lt_string_def hour_strings)

text \<open>
  Without the leading zero the string \<open>6\<close> is not below the string \<open>22\<close>: the window is
  not taken as one that wraps around midnight, and no hour lies in it.
\<close>

lemma unpadded_hours_never_quiet: "\<not> in_quiet_hours h (''22'', ''6'')"
  by (simp add: in_quiet_hours_def number_ge_string_def number_lt_string_def
        StringToNumber_def unsigned_decimal_def exponent_part_def trim_def Let_def char_eval)

text \<open>
  The order of the checks. The coordinator checks that the extension is enabled, then the
  test of the quiet window, then that the host name contains one of the enabled sites (an
  empty list allows every site), then that the confidence is at least 50. The first check
  that fails gives \<open>blocked: false\<close> with its reason and leaves the storage as it was. When
  all pass, the identifier drawn for the event is returned with the questions, goal impact
  and risk level of the reflection, and an event with that identifier and outcome pending
  is appended to the purchase history.
\<close>

lemma handlePurchaseDetected_policy:
  fixes env :: bg_env and st :: storage and m :: detected_msg
  defines "is_enabled \<equiv> enabled st = Some True"
  defines "quiet \<equiv>
     \<exists>se q. settings st = Some se \<and> quietHours se = Some q
        \<and> in_quiet_hours (env_hour env) q"
  defines "site_ok \<equiv>
     \<forall>se. settings st = Some se \<longrightarrow>
        enabledSites se = [] \<or>
        (\<exists>site\<in>set (enabledSites se). \<exists>pre suf. msg_site m = pre @ site @ suf)"
  defines "confident \<equiv> msg_confidence m \<ge> 50"
  defines "reflection \<equiv> fst (fst (callProxyAPI env st (msg_product m) None))"
  defines "history \<equiv> (case purchaseHistory st of Some h \<Rightarrow> h | None \<Rightarrow> [])"
  shows "(\<not> is_enabled \<longrightarrow>
            handlePurchaseDetected env st m = (NotBlocked ''extension_disabled'', st))
   \<and> (is_enabled \<and> quiet \<longrightarrow>
            handlePurchaseDetected env st m = (NotBlocked ''quiet_hours'', st))
   \<and> (is_enabled \<and> \<not> quiet \<and> \<not> site_ok \<longrightarrow>
            handlePurchaseDetected env st m = (NotBlocked ''site_not_enabled'', st))
   \<and> (is_enabled \<and> \<not> quiet \<and> site_ok \<and> \<not> confident \<longrightarrow>
            handlePurchaseDetected env st m = (NotBlocked ''low_confidence'', st))
   \<and> (is_enabled \<and> \<not> quiet \<and> site_ok \<and> confident \<longrightarrow>
        (\<exists>info st' e.
            handlePurchaseDetected env st m = (Blocked info, st')
            \<and> b_eventId info = env_uuid env
            \<and> b_questions info = questions reflection
            \<and> b_goalImpact info = goalImpact reflection
            \<and> b_riskLevel info = riskLevel reflection
            \<and> purchaseHistory st' = Some (history @ [e])
            \<and> h_id e = Some (env_uuid env) \<and> h_eventId e = Some (env_uuid env)
            \<and> h_outcome e = Pending
            \<and> h_product e = Some (msg_product m)
            \<and> h_questionsAsked e = questions reflection))"
proof -
  note q = quiet_check_iff [where st = st and h = "env_hour env", folded quiet_def]
  note s = site_check_iff [where st = st and host = "msg_site m", folded site_ok_def]
  have c1: "\<not> is_enabled \<longrightarrow>
            handlePurchaseDetected env st m = (NotBlocked ''extension_disabled'', st)"
    by (simp add: handlePurchaseDetected_def is_enabled_def)
  have c2: "is_enabled \<and> quiet \<longrightarrow>
            handlePurchaseDetected env st m = (NotBlocked ''quiet_hours'', st)"
    by (simp add: handlePurchaseDetected_def is_enabled_def q)
  have c3: "is_enabled \<and> \<not> quiet \<and> \<not> site_ok \<longrightarrow>
            handlePurchaseDetected env st m = (NotBlocked ''site_not_enabled'', st)"
    by (simp add: handlePurchaseDetected_def is_enabled_def q s)
  have c4: "is_enabled \<and> \<not> quiet \<and> site_ok \<and> \<not> confident \<longrightarrow>
            handlePurchaseDetected env st m = (NotBlocked ''low_confidence'', st)"
    by (simp add: handlePurchaseDetected_def is_enabled_def q s confident_def)
  have c5: "is_enabled \<and> \<not> quiet \<and> site_ok \<and> confident \<longrightarrow>
        (\<exists>info st' e.
            handlePurchaseDetected env st m = (Blocked info, st')
            \<and> b_eventId info = env_uuid env
            \<and> b_questions info = questions reflection
            \<and> b_goalImpact info = goalImpact reflection
            \<and> b_riskLevel info = riskLevel reflection
            \<and> purchaseHistory st' = Some (history @ [e])
            \<and> h_id e = Some (env_uuid env) \<and> h_eventId e = Some (env_uuid env)
            \<and> h_outcome e = Pending
            \<and> h_product e = Some (msg_product m)
            \<and> h_questionsAsked e = questions reflection)"
  proof
    assume a: "is_enabled \<and> \<not> quiet \<and> site_ok \<and> confident"
    obtain resp rl st1 where call:
      "callProxyAPI env st (msg_product m) None = ((resp, rl), st1)"
      by (metis surj_pair)
    have resp: "resp = reflection" by (simp add: reflection_def call)
    have h1: "purchaseHistory st1 = purchaseHistory st"
      using callProxyAPI_keeps_history [of env st "msg_product m" None] call by simp
    let ?e = "pending_entry env m resp"
    let ?info = "\<lparr>b_eventId = env_uuid env, b_questions = questions resp,
                  b_goalImpact = goalImpact resp, b_riskLevel = riskLevel resp,
                  b_rateLimit = rl\<rparr>"
    let ?st' = "st1\<lparr>purchaseHistory := Some (history @ [?e])\<rparr>"
    have run: "handlePurchaseDetected env st m = (Blocked ?info, ?st')"
      using a
      by (simp add: handlePurchaseDetected_def is_enabled_def q s confident_def call h1
            history_def Let_def)
    show "\<exists>info st' e.
            handlePurchaseDetected env st m = (Blocked info, st')
            \<and> b_eventId info = env_uuid env
            \<and> b_questions info = questions reflection
            \<and> b_goalImpact info = goalImpact reflection
            \<and> b_riskLevel info = riskLevel reflection
            \<and> purchaseHistory st' = Some (history @ [e])
            \<and> h_id e = Some (env_uuid env) \<and> h_eventId e = Some (env_uuid env)
            \<and> h_outcome e = Pending
            \<and> h_product e = Some (msg_product m)
            \<and> h_questionsAsked e = questions reflection"
      apply (rule exI [of _ ?info], rule exI [of _ ?st'], rule exI [of _ ?e])
      using run resp by (simp add: pending_entry_def)
  qed
  from c1 c2 c3 c4 c5 show ?thesis by blast
qed

lemma amazon_host_enabled:
  "str_includes ''www.amazon.com'' ''amazon.com''
   \<and> \<not> str_includes ''www.etsy.com'' ''amazon.com''
   \<and> \<not> str_includes ''www.etsy.com'' ''ebay.com''"
  by simp

text \<open>
  Claim C3. The claim is that a detection inside the quiet hours is answered with the
  reason \<open>quiet_hours\<close> and stores no event, also for a window that wraps around midnight.
  The settings declare the bounds of the window as strings. With the window from
  \<open>22:00\<close> to \<open>06:00\<close> stored, both bounds convert to \<open>NaN\<close>, every comparison of the
  hour with a bound is false, and the quiet window is reported at no hour: at 23 o'clock,
  enabled, on an enabled site and with confidence 100, the coordinator blocks the
  purchase and stores a pending event.
\<close>

theorem quiet_window_not_recognised:
  "(\<exists>se. settings store_quiet = Some se \<and> quietHours se = Some (''22:00'', ''06:00''))
   \<and> env_hour env_late = 23
   \<and> StringToNumber ''22:00'' = NaN \<and> StringToNumber ''06:00'' = NaN
   \<and> (\<forall>h. \<not> in_quiet_hours h (''22:00'', ''06:00''))
   \<and> fst (handlePurchaseDetected env_late store_quiet detected0) \<noteq> NotBlocked ''quiet_hours''
   \<and> (\<exists>info. fst (handlePurchaseDetected env_late store_quiet detected0) = Blocked info
         \<and> b_eventId info = ''e-1'')
   \<and> map h_outcome (the (purchaseHistory (snd (handlePurchaseDetected env_late store_quiet
        detected0)))) = [Pending]"
proof -
  have se: "settings store_quiet =
      Some \<lparr>set_frictionLevel = 3, enabledSites = [''amazon.com'', ''ebay.com''],
            quietHours = Some (''22:00'', ''06:00''), notifications = True\<rparr>"
    by (simp add: store_quiet_def)
  have en: "enabled store_quiet = Some True" by (simp add: store_quiet_def store0_def)
  have hour: "env_hour env_late = 23" by (simp add: env_late_def)
  have uuid: "env_uuid env_late = ''e-1''" by (simp add: env_late_def env0_def)
  have quiet: "\<not> (\<exists>se q. settings store_quiet = Some se \<and> quietHours se = Some q
        \<and> in_quiet_hours (env_hour env_late) q)"
    by (simp add: se clock_strings_never_quiet)
  have site: "\<forall>se. settings store_quiet = Some se \<longrightarrow> enabledSites se = [] \<or>
        (\<exists>site\<in>set (enabledSites se). \<exists>pre suf. msg_site detected0 = pre @ site @ suf)"
    using amazon_host_enabled
    by (simp add: se detected0_def str_includes_iff [symmetric])
  have conf: "msg_confidence detected0 \<ge> 50" by (simp add: detected0_def)
  have h0: "(case purchaseHistory store_quiet of Some h \<Rightarrow> h | None \<Rightarrow> []) = []"
    by (simp add: store_quiet_def store0_def)
  from handlePurchaseDetected_policy
    [where env = env_late and st = store_quiet and m = detected0] en quiet site conf
  obtain info st' e where r:
    "handlePurchaseDetected env_late store_quiet detected0 = (Blocked info, st')"
    "b_eventId info = env_uuid env_late"
    "purchaseHistory st' =
       Some ((case purchaseHistory store_quiet of Some h \<Rightarrow> h | None \<Rightarrow> []) @ [e])"
    "h_outcome e = Pending"
    by blast
  have 1: "\<exists>se. settings store_quiet = Some se \<and> quietHours se = Some (''22:00'', ''06:00'')"
    by (simp add: se)
  have 2: "StringToNumber ''22:00'' = NaN \<and> StringToNumber ''06:00'' = NaN"
    by (simp add: hour_strings)
  have 3: "\<forall>h. \<not> in_quiet_hours h (''22:00'', ''06:00'')"
    by (simp add: clock_strings_never_quiet)
  have 4: "fst (handlePurchaseDetected env_late store_quiet detected0)
      \<noteq> NotBlocked ''quiet_hours''"
    by (simp add: r(1))
  have 5: "\<exists>info. fst (handlePurchaseDetected env_late store_quiet detected0) = Blocked info
         \<and> b_eventId info = ''e-1''"
    using r(2) by (simp add: r(1) uuid)
  have 6: "map h_outcome (the (purchaseHistory (snd (handlePurchaseDetected env_late
      store_quiet detected0)))) = [Pending]"
    by (simp add: r h0)
  from 1 hour 2 3 4 5 6 show ?thesis by blast
qed

text \<open>
  With two-digit hours stored, the same window is recognised: the order of the strings
  \<open>22\<close> and \<open>06\<close> is the order of the numbers.
\<close>

lemma padded_hours_policy:
  "handlePurchaseDetected env0 (store0\<lparr>enabled := Some False\<rparr>) detected0 =
     (NotBlocked ''extension_disabled'', store0\<lparr>enabled := Some False\<rparr>)
   \<and> handlePurchaseDetected (env0\<lparr>env_hour := 23\<rparr>) store0 detected0 =
       (NotBlocked ''quiet_hours'', store0)
   \<and> handlePurchaseDetected env0 store0 (detected0\<lparr>msg_site := ''www.etsy.com''\<rparr>) =
       (NotBlocked ''site_not_enabled'', store0)
   \<and> handlePurchaseDetected env0 store0 (detected0\<lparr>msg_confidence := 49\<rparr>) =
       (NotBlocked ''low_confidence'', store0)"
proof -
  have en: "enabled store0 = Some True" by (simp add: store0_def)
  have quiet14: "\<not> (\<exists>se q. settings store0 = Some se \<and> quietHours se = Some q
        \<and> in_quiet_hours (env_hour env0) q)"
    by (simp add: store0_def env0_def padded_hours_quiet)
  have quiet23: "\<exists>se q. settings store0 = Some se \<and> quietHours se = Some q
        \<and> in_quiet_hours (env_hour (env0\<lparr>env_hour := 23\<rparr>)) q"
    by (simp add: store0_def padded_hours_quiet)
  have site49: "\<forall>se. settings store0 = Some se \<longrightarrow> enabledSites se = [] \<or>
        (\<exists>site\<in>set (enabledSites se).
           \<exists>pre suf. msg_site (detected0\<lparr>msg_confidence := 49\<rparr>) = pre @ site @ suf)"
    using amazon_host_enabled
    by (simp add: store0_def detected0_def str_includes_iff [symmetric])
  have nosite: "\<not> (\<forall>se. settings store0 = Some se \<longrightarrow> enabledSites se = [] \<or>
        (\<exists>site\<in>set (enabledSites se).
           \<exists>pre suf. msg_site (detected0\<lparr>msg_site := ''www.etsy.com''\<rparr>) = pre @ site @ suf))"
    using amazon_host_enabled
    by (simp add: store0_def str_includes_iff [symmetric])
  have 1: "handlePurchaseDetected env0 (store0\<lparr>enabled := Some False\<rparr>) detected0 =
     (NotBlocked ''extension_disabled'', store0\<lparr>enabled := Some False\<rparr>)"
    using handlePurchaseDetected_policy
      [where env = env0 and st = "store0\<lparr>enabled := Some False\<rparr>" and m = detected0]
    by simp
  have 2: "handlePurchaseDetected (env0\<lparr>env_hour := 23\<rparr>) store0 detected0 =
       (NotBlocked ''quiet_hours'', store0)"
    using handlePurchaseDetected_policy
      [where env = "env0\<lparr>env_hour := 23\<rparr>" and st = store0 and m = detected0] en quiet23
    by blast
  have 3: "handlePurchaseDetected env0 store0 (detected0\<lparr>msg_site := ''www.etsy.com''\<rparr>) =
       (NotBlocked ''site_not_enabled'', store0)"
    using handlePurchaseDetected_policy
      [where env = env0 and st = store0 and m = "detected0\<lparr>msg_site := ''www.etsy.com''\<rparr>"]
      en quiet14 nosite
    by blast
  have 4: "handlePurchaseDetected env0 store0 (detected0\<lparr>msg_confidence := 49\<rparr>) =
       (NotBlocked ''low_confidence'', store0)"
    using handlePurchaseDetected_policy
      [where env = env0 and st = store0 and m = "detected0\<lparr>msg_confidence := 49\<rparr>"]
      en quiet14 site49
    by simp
  from 1 2 3 4 show ?thesis by blast
qed

section \<open>Product extraction\<close>

lemma name_loop_first:
  "i < length sels \<Longrightarrow> selector_text p (sels ! i) = Some t \<Longrightarrow> usable_name t \<Longrightarrow>
   (\<forall>j<i. \<forall>u. selector_text p (sels ! j) = Some u \<longrightarrow> \<not> usable_name u) \<Longrightarrow>
   name_loop p sels = t"
proof (induction sels arbitrary: i)
  case Nil
  then show ?case by simp
next
  case (Cons sel sels)
  show ?case
  proof (cases i)
    case 0
    with Cons.prems show ?thesis by simp
  next
    case (Suc k)
    from Cons.prems(4) Suc have skip: "\<forall>u. selector_text p sel = Some u \<longrightarrow> \<not> usable_name u"
      by auto
    from Cons.prems(4) Suc
    have rest: "\<forall>j<k. \<forall>u. selector_text p (sels ! j) = Some u \<longrightarrow> \<not> usable_name u"
      by auto
    from Cons.prems Suc have "name_loop p sels = t"
      by (intro Cons.IH [of k] rest) auto
    with skip show ?thesis by (auto split: option.splits)
  qed
qed

lemma name_loop_none:
  "(\<forall>sel\<in>set sels. \<forall>u. selector_text p sel = Some u \<longrightarrow> \<not> usable_name u) \<Longrightarrow>
   name_loop p sels = []"
  by (induction sels) (auto split: option.splits)

lemma price_loop_first:
  "i < length sels \<Longrightarrow> selector_price p (sels ! i) = Some v \<Longrightarrow>
   (\<forall>j<i. selector_price p (sels ! j) = None) \<Longrightarrow> price_loop p sels = v"
proof (induction sels arbitrary: i)
  case Nil
  then show ?case by simp
next
  case (Cons sel sels)
  show ?case
  proof (cases i)
    case 0
    with Cons.prems show ?thesis by simp
  next
    case (Suc k)
    from Cons.prems(3) Suc have skip: "selector_price p sel = None" by auto
    from Cons.prems(3) Suc have rest: "\<forall>j<k. selector_price p (sels ! j) = None" by auto
    from Cons.prems Suc have "price_loop p sels = v"
      by (intro Cons.IH [of k] rest) auto
    with skip show ?thesis by simp
  qed
qed

lemma price_loop_none:
  "(\<forall>sel\<in>set sels. selector_price p sel = None) \<Longrightarrow> price_loop p sels = 0"
  by (induction sels) auto

lemma selector_price_positive: "selector_price p sel = Some v \<Longrightarrow> v > 0"
  by (auto simp: selector_price_def split: option.splits if_splits)

lemma usable_name_iff: "usable_name t \<longleftrightarrow> 1 < length t \<and> length t < 300"
  by (auto simp: usable_name_def)

text \<open>
  Claim C9, as the code has it. \<open>extractProductInfo\<close> has no failing branch. The name is
  the trimmed text of the first selector of the list whose trimmed text has more than one
  and fewer than 300 characters, else the cleaned page title when that is not empty, else
  the literal \<open>Unknown Product\<close>, cut to 200 characters. The price is the number of the
  first selector of the list whose text yields a positive parsed number, and 0 when no
  selector does. The category is always \<open>general\<close>.
\<close>

theorem extractProductInfo_fallback_chain:
  fixes p :: page
  defines "usable \<equiv> \<lambda>sel. \<exists>t. selector_text p sel = Some t \<and> 1 < length t \<and> length t < 300"
  shows "length (name (extractProductInfo p)) \<le> 200
   \<and> (\<forall>i<length nameSelectors.
         usable (nameSelectors ! i) \<and> (\<forall>j<i. \<not> usable (nameSelectors ! j)) \<longrightarrow>
         name (extractProductInfo p) = take 200 (the (selector_text p (nameSelectors ! i))))
   \<and> ((\<forall>sel\<in>set nameSelectors. \<not> usable sel) \<and> cleaned_title p \<noteq> [] \<longrightarrow>
         name (extractProductInfo p) = take 200 (cleaned_title p))
   \<and> ((\<forall>sel\<in>set nameSelectors. \<not> usable sel) \<and> cleaned_title p = [] \<longrightarrow>
         name (extractProductInfo p) = ''Unknown Product'')
   \<and> (\<forall>i<length priceSelectors. \<forall>v.
         selector_price p (priceSelectors ! i) = Some v
         \<and> (\<forall>j<i. selector_price p (priceSelectors ! j) = None) \<longrightarrow>
         price (extractProductInfo p) = v \<and> v > 0)
   \<and> ((\<forall>sel\<in>set priceSelectors. selector_price p sel = None) \<longrightarrow>
         price (extractProductInfo p) = 0)
   \<and> category (extractProductInfo p) = ''general''
   \<and> url (extractProductInfo p) = href p"
proof -
  have u: "\<And>sel. usable sel \<longleftrightarrow> (\<exists>t. selector_text p sel = Some t \<and> usable_name t)"
    by (simp add: usable_def usable_name_iff)
  have n0: "length (name (extractProductInfo p)) \<le> 200"
    by (simp add: extractProductInfo_def)
  have n1: "\<forall>i<length nameSelectors.
         usable (nameSelectors ! i) \<and> (\<forall>j<i. \<not> usable (nameSelectors ! j)) \<longrightarrow>
         name (extractProductInfo p) = take 200 (the (selector_text p (nameSelectors ! i)))"
  proof (intro allI impI)
    fix i
    assume i: "i < length nameSelectors"
      and h: "usable (nameSelectors ! i) \<and> (\<forall>j<i. \<not> usable (nameSelectors ! j))"
    from h obtain t where t: "selector_text p (nameSelectors ! i) = Some t" "usable_name t"
      by (auto simp: u)
    from h have before:
      "\<forall>j<i. \<forall>x. selector_text p (nameSelectors ! j) = Some x \<longrightarrow> \<not> usable_name x"
      by (auto simp: u)
    have "name_loop p nameSelectors = t"
      by (rule name_loop_first [OF i t before])
    moreover have "t \<noteq> []" using t(2) by (auto simp: usable_name_def)
    ultimately show
      "name (extractProductInfo p) = take 200 (the (selector_text p (nameSelectors ! i)))"
      using t(1) by (simp add: extractProductInfo_def extract_name_def)
  qed
  have none: "(\<forall>sel\<in>set nameSelectors. \<not> usable sel) \<Longrightarrow> name_loop p nameSelectors = []"
    by (rule name_loop_none) (auto simp: u)
  have n2: "(\<forall>sel\<in>set nameSelectors. \<not> usable sel) \<and> cleaned_title p \<noteq> [] \<longrightarrow>
         name (extractProductInfo p) = take 200 (cleaned_title p)"
    using none by (simp add: extractProductInfo_def extract_name_def)
  have n3: "(\<forall>sel\<in>set nameSelectors. \<not> usable sel) \<and> cleaned_title p = [] \<longrightarrow>
         name (extractProductInfo p) = ''Unknown Product''"
    using none by (simp add: extractProductInfo_def extract_name_def)
  have p1: "\<forall>i<length priceSelectors. \<forall>v.
         selector_price p (priceSelectors ! i) = Some v
         \<and> (\<forall>j<i. selector_price p (priceSelectors ! j) = None) \<longrightarrow>
         price (extractProductInfo p) = v \<and> v > 0"
  proof (intro allI impI)
    fix i v
    assume i: "i < length priceSelectors"
      and h: "selector_price p (priceSelectors ! i) = Some v
              \<and> (\<forall>j<i. selector_price p (priceSelectors ! j) = None)"
    from h have "price_loop p priceSelectors = v"
      by (intro price_loop_first [OF i]) auto
    moreover from h have "v > 0" by (auto dest: selector_price_positive)
    ultimately show "price (extractProductInfo p) = v \<and> v > 0"
      by (simp add: extractProductInfo_def)
  qed
  have p2: "(\<forall>sel\<in>set priceSelectors. selector_price p sel = None) \<longrightarrow>
         price (extractProductInfo p) = 0"
    using price_loop_none [of priceSelectors p] by (simp add: extractProductInfo_def)
  have c: "category (extractProductInfo p) = ''general'' \<and> url (extractProductInfo p) = href p"
    by (simp add: extractProductInfo_def)
  from n0 n1 n2 n3 p1 p2 c show ?thesis by blast
qed

lemma product_page_first_name:
  "nameSelectors ! 0 = ''#productTitle''
   \<and> selector_text product_page ''#productTitle'' = Some ''Blue Widget''"
  by (simp add: nameSelectors_def selector_text_def querySelector_def product_page_def
        el0_def trim_def char_eval)

lemma product_page_first_price:
  "priceSelectors ! 0 = ''.a-price .a-offscreen''
   \<and> selector_price product_page ''.a-price .a-offscreen'' = Some (2469 / 2)"
  by (simp add: priceSelectors_def selector_price_def price_text_def querySelector_def
        product_page_def el0_def or_empty_def is_digit_or_comma_def replace_first_comma_def
        parseFloat_def Let_def char_eval)

lemma blank_page_no_text: "selector_text blank_page sel = None"
  by (simp add: selector_text_def querySelector_def blank_page_queries)

lemma blank_page_no_price: "selector_price blank_page sel = None"
  by (simp add: selector_price_def price_text_def querySelector_def blank_page_queries
        or_empty_def)

lemma blank_page_title: "cleaned_title blank_page = ''About us''"
  by (simp add: cleaned_title_def blank_page_def title_match_here_def is_title_sep_def
        trim_def char_eval)

theorem extractProductInfo_fallback_chain_witness:
  "name (extractProductInfo product_page) = ''Blue Widget''
   \<and> price (extractProductInfo product_page) = 2469 / 2
   \<and> name (extractProductInfo blank_page) = ''About us''
   \<and> price (extractProductInfo blank_page) = 0"
proof -
  have l: "0 < length nameSelectors \<and> 0 < length priceSelectors"
    by (simp add: nameSelectors_def priceSelectors_def)
  note T = extractProductInfo_fallback_chain [of product_page]
  have 1: "name (extractProductInfo product_page) = ''Blue Widget''"
    using T [THEN conjunct2, THEN conjunct1, rule_format, of 0] product_page_first_name l
    by simp
  have 2: "price (extractProductInfo product_page) = 2469 / 2"
    using T [THEN conjunct2, THEN conjunct2, THEN conjunct2, THEN conjunct2, THEN conjunct1,
        rule_format, of 0 "2469 / 2"] product_page_first_price l
    by simp
  have 3: "name (extractProductInfo blank_page) = ''About us''"
    using extractProductInfo_fallback_chain [of blank_page]
    by (simp add: blank_page_no_text blank_page_title)
  have 4: "price (extractProductInfo blank_page) = 0"
    using extractProductInfo_fallback_chain [of blank_page]
    by (simp add: blank_page_no_price)
  from 1 2 3 4 show ?thesis by blast
qed

lemma short_title_page_texts:
  "nameSelectors ! 0 = ''#productTitle''
   \<and> nameSelectors ! Suc 0 = ''.sc-product-title''
   \<and> selector_text short_title_page ''#productTitle'' = Some ''X''
   \<and> selector_text short_title_page ''.sc-product-title'' = Some ''Blue Widget''"
  by (simp add: nameSelectors_def selector_text_def querySelector_def short_title_page_def
        el0_def trim_def char_eval)

text \<open>
  Claim C9, as stated, at a page whose first name selector finds the text \<open>X\<close> and whose
  second finds \<open>Blue Widget\<close>: the first selector has non-empty trimmed text, and the name
  returned is not that text but the text of the second selector.
\<close>

theorem first_nonempty_name_counterexample:
  "selector_text short_title_page (nameSelectors ! 0) = Some ''X''
   \<and> ''X'' \<noteq> []
   \<and> name (extractProductInfo short_title_page) = ''Blue Widget''
   \<and> name (extractProductInfo short_title_page) \<noteq> take 200 ''X''"
proof -
  have "name_loop short_title_page nameSelectors = ''Blue Widget''"
    by (rule name_loop_first [of "Suc 0"])
       (simp_all add: short_title_page_texts usable_name_def, simp add: nameSelectors_def)
  then show ?thesis
    by (simp add: short_title_page_texts extractProductInfo_def extract_name_def)
qed

section \<open>Shielding\<close>

lemma update_new_key: "map_of al k = None \<Longrightarrow> AList.update k v al = al @ [(k, v)]"
  by (induction al) (auto split: if_splits)

lemma update_same_sid:
  "map_of al k = Some v0 \<Longrightarrow> sid v = sid v0 \<Longrightarrow>
   map (sid \<circ> snd) (AList.update k v al) = map (sid \<circ> snd) al"
  by (induction al) (auto split: if_splits)

lemma update_self: "AList.update k v al = al \<longleftrightarrow> map_of al k = Some v"
proof
  assume "AList.update k v al = al"
  then have "map_of (AList.update k v al) k = map_of al k" by simp
  then show "map_of al k = Some v" by (simp add: update_conv')
next
  assume "map_of al k = Some v"
  then show "AList.update k v al = al" by (rule update_triv)
qed

lemma map_of_None_iff_keys: "map_of al k = None \<longleftrightarrow> k \<notin> set (map fst al)"
  by (simp add: map_of_eq_None_iff)

lemma positioned_sid: "sid (positioned p b sh) = sid sh"
  by (simp add: positioned_def)

lemma positioned_idem: "positioned p b (positioned p b sh) = positioned p b sh"
  by (simp add: positioned_def)

lemma updateShieldPosition_eq:
  "updateShieldPosition p b s =
     (case map_of (shieldedButtons s) (eid b) of
        None \<Rightarrow> s
      | Some sh \<Rightarrow>
          s\<lparr>shieldedButtons := AList.update (eid b) (positioned p b sh) (shieldedButtons s)\<rparr>)"
  by (simp add: updateShieldPosition_def positioned_def split: option.splits)

text \<open>The shield \<open>createShield\<close> makes for a button.\<close>

lemma shield_step_cases:
  "shield_step p b s =
     (case map_of (shieldedButtons s) (eid b) of
        Some sh \<Rightarrow>
          s\<lparr>shieldedButtons := AList.update (eid b) (positioned p b sh) (shieldedButtons s)\<rparr>
      | None \<Rightarrow>
          if zero_sized b then s
          else s\<lparr>body_shields := body_shields s @ [next_sid s],
                 next_sid := Suc (next_sid s),
                 shieldedButtons :=
                   shieldedButtons s @
                     [(eid b, \<lparr>sid = next_sid s, css_display = [],
                               css_top = rect_top b + scrollY p,
                               css_left = rect_left b + scrollX p,
                               css_width = rect_width b,
                               css_height = rect_height b\<rparr>)]\<rparr>)"
  by (simp add: shield_step_def updateShieldPosition_eq createShield_def Let_def
        update_new_key split: option.splits)

lemma shield_step_frame:
  "handledUrl (shield_step p b s) = handledUrl s
   \<and> overlayActive (shield_step p b s) = overlayActive s
   \<and> pendingButton (shield_step p b s) = pendingButton s
   \<and> lastAutoDetection (shield_step p b s) = lastAutoDetection s
   \<and> lastUrl (shield_step p b s) = lastUrl s
   \<and> proceedUntil (shield_step p b s) = proceedUntil s
   \<and> sent (shield_step p b s) = sent s
   \<and> clicks (shield_step p b s) = clicks s"
  by (simp add: shield_step_cases split: option.splits)

lemma fold_shield_step_frame:
  "handledUrl (fold (shield_step p) bs s) = handledUrl s
   \<and> overlayActive (fold (shield_step p) bs s) = overlayActive s
   \<and> pendingButton (fold (shield_step p) bs s) = pendingButton s
   \<and> lastAutoDetection (fold (shield_step p) bs s) = lastAutoDetection s
   \<and> lastUrl (fold (shield_step p) bs s) = lastUrl s
   \<and> proceedUntil (fold (shield_step p) bs s) = proceedUntil s
   \<and> sent (fold (shield_step p) bs s) = sent s
   \<and> clicks (fold (shield_step p) bs s) = clicks s"
  by (induction bs arbitrary: s) (simp_all add: shield_step_frame)

lemma shieldPurchaseButtons_frame:
  "handledUrl (shieldPurchaseButtons p s) = handledUrl s
   \<and> overlayActive (shieldPurchaseButtons p s) = overlayActive s
   \<and> pendingButton (shieldPurchaseButtons p s) = pendingButton s
   \<and> lastAutoDetection (shieldPurchaseButtons p s) = lastAutoDetection s
   \<and> lastUrl (shieldPurchaseButtons p s) = lastUrl s
   \<and> proceedUntil (shieldPurchaseButtons p s) = proceedUntil s
   \<and> sent (shieldPurchaseButtons p s) = sent s
   \<and> clicks (shieldPurchaseButtons p s) = clicks s"
  by (simp add: shieldPurchaseButtons_def fold_shield_step_frame)

text \<open>What one step does to the entry of a button.\<close>

lemma shield_step_key_self:
  "map_of (shieldedButtons (shield_step p b s)) (eid b) =
     (case map_of (shieldedButtons s) (eid b) of
        Some sh \<Rightarrow> Some (positioned p b sh)
      | None \<Rightarrow>
          if zero_sized b then None
          else Some \<lparr>sid = next_sid s, css_display = [],
                     css_top = rect_top b + scrollY p,
                     css_left = rect_left b + scrollX p,
                     css_width = rect_width b,
                     css_height = rect_height b\<rparr>)"
  by (simp add: shield_step_cases update_conv' map_add_def split: option.splits)

lemma shield_step_key_other:
  "k \<noteq> eid b \<Longrightarrow>
   map_of (shieldedButtons (shield_step p b s)) k = map_of (shieldedButtons s) k"
  by (simp add: shield_step_cases update_conv' map_add_def split: option.splits)

text \<open>A step that changes nothing: the button is settled.\<close>

lemma detector_shields_update_self:
  "s\<lparr>shieldedButtons := X\<rparr> = s \<longleftrightarrow> X = shieldedButtons s"
  by (cases s) auto

lemma settled_iff:
  "shield_step p b s = s \<longleftrightarrow>
     (case map_of (shieldedButtons s) (eid b) of
        Some sh \<Rightarrow> positioned p b sh = sh
      | None \<Rightarrow> zero_sized b)"
proof (cases "map_of (shieldedButtons s) (eid b)")
  case None
  show ?thesis
  proof (cases "zero_sized b")
    case True
    with None show ?thesis by (simp add: shield_step_cases)
  next
    case False
    have "next_sid (shield_step p b s) = Suc (next_sid s)"
      using None False by (simp add: shield_step_cases)
    then have "shield_step p b s \<noteq> s" by (metis n_not_Suc_n)
    with None False show ?thesis by simp
  qed
next
  case (Some sh)
  then show ?thesis
    by (auto simp add: shield_step_cases detector_shields_update_self update_self)
qed

lemma settled_after_step: "shield_step p b (shield_step p b s) = shield_step p b s"
  by (simp add: settled_iff shield_step_key_self positioned_idem positioned_def
           split: option.splits)

lemma settled_preserved:
  assumes "shield_step p b s = s" and "eid x \<noteq> eid b"
  shows "shield_step p b (shield_step p x s) = shield_step p x s"
  using assms by (simp add: settled_iff shield_step_key_other)

lemma fold_settles:
  assumes "inj_on eid (set bs)"
  shows "\<forall>b\<in>set bs. shield_step p b (fold (shield_step p) bs s) = fold (shield_step p) bs s"
  using assms
proof (induction bs rule: rev_induct)
  case Nil
  show ?case by simp
next
  case (snoc x xs)
  from snoc.prems have inj: "inj_on eid (set xs)" by (simp add: inj_on_def)
  let ?t = "fold (shield_step p) xs s"
  have f: "fold (shield_step p) (xs @ [x]) s = shield_step p x ?t" by simp
  show ?case
  proof
    fix b
    assume b: "b \<in> set (xs @ [x])"
    show "shield_step p b (fold (shield_step p) (xs @ [x]) s) = fold (shield_step p) (xs @ [x]) s"
    proof (cases "b = x")
      case True
      then show ?thesis by (simp add: settled_after_step)
    next
      case False
      with b have bx: "b \<in> set xs" by simp
      from snoc.prems bx False have ne: "eid x \<noteq> eid b" by (auto simp: inj_on_def)
      from snoc.IH [OF inj] bx have "shield_step p b ?t = ?t" by blast
      from settled_preserved [OF this ne] show ?thesis by (simp only: f)
    qed
  qed
qed

lemma fold_of_settled:
  "(\<forall>b\<in>set bs. shield_step p b t = t) \<Longrightarrow> fold (shield_step p) bs t = t"
  by (induction bs) auto

lemma shieldPurchaseButtons_idem:
  assumes "inj_on eid (set (findPurchaseButtons p))"
  shows "shieldPurchaseButtons p (shieldPurchaseButtons p s) = shieldPurchaseButtons p s"
proof (cases "handledUrl s = Some (href p)")
  case True
  then show ?thesis by (simp add: shieldPurchaseButtons_def)
next
  case False
  let ?t = "fold (shield_step p) (findPurchaseButtons p) s"
  have "handledUrl ?t \<noteq> Some (href p)" using False by (simp add: fold_shield_step_frame)
  moreover have "fold (shield_step p) (findPurchaseButtons p) ?t = ?t"
    by (rule fold_of_settled) (rule fold_settles [OF assms])
  ultimately show ?thesis using False by (simp add: shieldPurchaseButtons_def)
qed

text \<open>The keys after the loop, and the bookkeeping invariant.\<close>

lemma shield_step_has:
  "map_of (shieldedButtons (shield_step p b s)) k = None \<longleftrightarrow>
     map_of (shieldedButtons s) k = None \<and> \<not> (k = eid b \<and> \<not> zero_sized b)"
proof (cases "k = eid b")
  case True
  then show ?thesis by (simp add: shield_step_key_self split: option.splits)
next
  case False
  then show ?thesis by (simp add: shield_step_key_other)
qed

lemma fold_shield_step_has:
  "map_of (shieldedButtons (fold (shield_step p) bs s)) k = None \<longleftrightarrow>
     map_of (shieldedButtons s) k = None \<and> \<not> (\<exists>b\<in>set bs. k = eid b \<and> \<not> zero_sized b)"
proof (induction bs arbitrary: s)
  case Nil
  show ?case by simp
next
  case (Cons x xs)
  have "map_of (shieldedButtons (fold (shield_step p) (x # xs) s)) k = None \<longleftrightarrow>
        map_of (shieldedButtons (shield_step p x s)) k = None
        \<and> \<not> (\<exists>b\<in>set xs. k = eid b \<and> \<not> zero_sized b)"
    using Cons.IH [of "shield_step p x s"] by simp
  also have "\<dots> \<longleftrightarrow> map_of (shieldedButtons s) k = None
        \<and> \<not> (\<exists>b\<in>set (x # xs). k = eid b \<and> \<not> zero_sized b)"
    unfolding shield_step_has by auto
  finally show ?case .
qed

lemma shield_step_keeps_node:
  "map_of (shieldedButtons s) k = Some sh \<Longrightarrow>
   \<exists>sh'. map_of (shieldedButtons (shield_step p b s)) k = Some sh' \<and> sid sh' = sid sh"
proof (cases "k = eid b")
  case True
  assume "map_of (shieldedButtons s) k = Some sh"
  with True show ?thesis by (simp add: shield_step_key_self positioned_sid)
next
  case False
  assume "map_of (shieldedButtons s) k = Some sh"
  with False show ?thesis by (simp add: shield_step_key_other)
qed

lemma fold_shield_step_keeps_node:
  "map_of (shieldedButtons s) k = Some sh \<Longrightarrow>
   \<exists>sh'. map_of (shieldedButtons (fold (shield_step p) bs s)) k = Some sh' \<and> sid sh' = sid sh"
proof (induction bs arbitrary: s sh)
  case Nil
  then show ?case by simp
next
  case (Cons x xs)
  from shield_step_keeps_node [OF Cons.prems, of p x] obtain sh1 where
    1: "map_of (shieldedButtons (shield_step p x s)) k = Some sh1" "sid sh1 = sid sh" by blast
  from Cons.IH [OF 1(1)] 1(2) show ?case by simp
qed

lemma shield_step_consistent:
  assumes "shields_consistent s"
  shows "shields_consistent (shield_step p b s)"
proof (cases "map_of (shieldedButtons s) (eid b)")
  case None
  show ?thesis
  proof (cases "zero_sized b")
    case True
    with None assms show ?thesis by (simp add: shield_step_cases)
  next
    case False
    from None have k: "eid b \<notin> set (map fst (shieldedButtons s))"
      by (simp add: map_of_None_iff_keys)
    from assms have fresh: "next_sid s \<notin> set (body_shields s)"
      by (auto simp: shields_consistent_def)
    with assms have fresh': "next_sid s \<notin> set (map (sid \<circ> snd) (shieldedButtons s))"
      by (simp add: shields_consistent_def)
    from assms k fresh fresh' None False show ?thesis
      by (auto simp: shields_consistent_def shield_step_cases less_Suc_eq)
  qed
next
  case (Some sh)
  then have k: "eid b \<in> set (map fst (shieldedButtons s))"
    by (metis map_of_None_iff_keys option.distinct(1))
  have sids: "map (sid \<circ> snd) (AList.update (eid b) (positioned p b sh) (shieldedButtons s)) =
              map (sid \<circ> snd) (shieldedButtons s)"
    by (rule update_same_sid [OF Some]) (rule positioned_sid)
  have keys: "map fst (AList.update (eid b) (positioned p b sh) (shieldedButtons s)) =
              map fst (shieldedButtons s)"
    using k by (simp add: update_keys)
  from assms Some show ?thesis
    unfolding shields_consistent_def shield_step_cases
    by (simp add: sids keys)
qed

lemma fold_shield_step_consistent:
  "shields_consistent s \<Longrightarrow> shields_consistent (fold (shield_step p) bs s)"
  by (induction bs arbitrary: s) (simp_all add: shield_step_consistent)

lemma distinct_count_one: "distinct xs \<Longrightarrow> x \<in> set xs \<Longrightarrow> count_list xs x = 1"
  by (induction xs) auto

lemma consistent_one_overlay:
  assumes "shields_consistent s" and "map_of (shieldedButtons s) k = Some sh"
  shows "count_list (body_shields s) (sid sh) = 1"
proof -
  from assms(2) have "(k, sh) \<in> set (shieldedButtons s)" by (rule map_of_SomeD)
  then have "sid sh \<in> set (map (sid \<circ> snd) (shieldedButtons s))" by force
  with assms(1) have "sid sh \<in> set (body_shields s)" by (simp add: shields_consistent_def)
  moreover from assms(1) have "distinct (body_shields s)" by (simp add: shields_consistent_def)
  ultimately show ?thesis by (rule distinct_count_one [rotated])
qed

lemma example_buttons:
  "eid buy_button = 1 \<and> eid hidden_button = 5
   \<and> \<not> zero_sized buy_button \<and> zero_sized hidden_button"
  by (simp add: buy_button_def hidden_button_def el0_def zero_sized_def)

lemma item_page_buttons: "findPurchaseButtons item_page = [buy_button, hidden_button]"
  by (simp add: findPurchaseButtons_def item_page_def buy_button_is_purchase
        hidden_button_is_purchase)

lemma item_page_step2_buttons:
  "findPurchaseButtons item_page_step2 = [buy_button, hidden_button]"
  by (simp add: findPurchaseButtons_def item_page_step2_def item_page_def
        buy_button_is_purchase hidden_button_is_purchase)

lemma idle_consistent: "shields_consistent idle \<and> handledUrl idle = None"
  by (simp add: shields_consistent_def idle_def)

lemma shieldPurchaseButtons_consistent:
  "shields_consistent s \<Longrightarrow> shields_consistent (shieldPurchaseButtons p s)"
  by (simp add: shieldPurchaseButtons_def fold_shield_step_consistent)

text \<open>
  Claim C4, as the code has it. For a state whose bookkeeping of the shields is in order
  and a page whose matched elements are told apart by their identity, running
  \<open>shieldPurchaseButtons\<close> twice in a row gives the state that running it once gives. On
  the handled address the function returns the state as it is: it registers nothing. On
  any other address, afterwards every matched button with a non-empty bounding box has one
  registered shield, attached to the body exactly once; a button that was shielded before
  keeps its shield node; the shield of a matched button has the style that
  \<open>updateShieldPosition\<close> gives it for the place of the button; and a matched button
  with zero width or height that had no shield still has none.
\<close>

theorem shielding_idempotent:
  fixes p :: page and s :: detector
  defines "once \<equiv> shieldPurchaseButtons p s"
  defines "twice \<equiv> shieldPurchaseButtons p (shieldPurchaseButtons p s)"
  assumes consistent: "shields_consistent s"
    and identity: "inj_on eid (set (findPurchaseButtons p))"
  shows "twice = once
   \<and> (handledUrl s = Some (href p) \<longrightarrow> once = s)
   \<and> (handledUrl s \<noteq> Some (href p) \<longrightarrow>
        shields_consistent twice
        \<and> (\<forall>b\<in>set (findPurchaseButtons p). \<not> zero_sized b \<longrightarrow>
             (\<exists>sh. map_of (shieldedButtons twice) (eid b) = Some sh
                   \<and> count_list (body_shields twice) (sid sh) = 1))
        \<and> (\<forall>k sh. map_of (shieldedButtons s) k = Some sh \<longrightarrow>
             (\<exists>sh'. map_of (shieldedButtons twice) k = Some sh' \<and> sid sh' = sid sh))
        \<and> (\<forall>b\<in>set (findPurchaseButtons p). \<forall>sh.
             map_of (shieldedButtons twice) (eid b) = Some sh \<longrightarrow> positioned p b sh = sh)
        \<and> (\<forall>b\<in>set (findPurchaseButtons p).
             zero_sized b \<and> map_of (shieldedButtons s) (eid b) = None \<longrightarrow>
             map_of (shieldedButtons twice) (eid b) = None))"
proof -
  let ?bs = "findPurchaseButtons p"
  have idem: "twice = once"
    unfolding twice_def once_def by (rule shieldPurchaseButtons_idem [OF identity])
  have handled: "handledUrl s = Some (href p) \<longrightarrow> once = s"
    by (simp add: once_def shieldPurchaseButtons_def)
  have rest: "shields_consistent once
        \<and> (\<forall>b\<in>set ?bs. \<not> zero_sized b \<longrightarrow>
             (\<exists>sh. map_of (shieldedButtons once) (eid b) = Some sh
                   \<and> count_list (body_shields once) (sid sh) = 1))
        \<and> (\<forall>k sh. map_of (shieldedButtons s) k = Some sh \<longrightarrow>
             (\<exists>sh'. map_of (shieldedButtons once) k = Some sh' \<and> sid sh' = sid sh))
        \<and> (\<forall>b\<in>set ?bs. \<forall>sh.
             map_of (shieldedButtons once) (eid b) = Some sh \<longrightarrow> positioned p b sh = sh)
        \<and> (\<forall>b\<in>set ?bs.
             zero_sized b \<and> map_of (shieldedButtons s) (eid b) = None \<longrightarrow>
             map_of (shieldedButtons once) (eid b) = None)"
    if unhandled: "handledUrl s \<noteq> Some (href p)"
  proof -
    have once: "once = fold (shield_step p) ?bs s"
      using unhandled by (simp add: once_def shieldPurchaseButtons_def)
    have cons: "shields_consistent once"
      unfolding once by (rule fold_shield_step_consistent [OF consistent])
    have visible: "\<forall>b\<in>set ?bs. \<not> zero_sized b \<longrightarrow>
          (\<exists>sh. map_of (shieldedButtons once) (eid b) = Some sh
                \<and> count_list (body_shields once) (sid sh) = 1)"
    proof (intro ballI impI)
      fix b
      assume b: "b \<in> set ?bs" and v: "\<not> zero_sized b"
      have "\<not> map_of (shieldedButtons once) (eid b) = None"
        unfolding once fold_shield_step_has using b v by blast
      then obtain sh where sh: "map_of (shieldedButtons once) (eid b) = Some sh" by blast
      from consistent_one_overlay [OF cons sh] sh
      show "\<exists>sh. map_of (shieldedButtons once) (eid b) = Some sh
                \<and> count_list (body_shields once) (sid sh) = 1" by blast
    qed
    have keep: "\<forall>k sh. map_of (shieldedButtons s) k = Some sh \<longrightarrow>
          (\<exists>sh'. map_of (shieldedButtons once) k = Some sh' \<and> sid sh' = sid sh)"
      unfolding once using fold_shield_step_keeps_node by blast
    have placed: "\<forall>b\<in>set ?bs. \<forall>sh.
          map_of (shieldedButtons once) (eid b) = Some sh \<longrightarrow> positioned p b sh = sh"
    proof (intro ballI allI impI)
      fix b sh
      assume b: "b \<in> set ?bs" and sh: "map_of (shieldedButtons once) (eid b) = Some sh"
      from fold_settles [OF identity, of p s] b
      have "shield_step p b once = once" unfolding once by blast
      with sh show "positioned p b sh = sh" by (simp add: settled_iff)
    qed
    have zero: "\<forall>b\<in>set ?bs. zero_sized b \<and> map_of (shieldedButtons s) (eid b) = None \<longrightarrow>
          map_of (shieldedButtons once) (eid b) = None"
    proof (intro ballI impI)
      fix b
      assume b: "b \<in> set ?bs"
        and z: "zero_sized b \<and> map_of (shieldedButtons s) (eid b) = None"
      have "\<not> (\<exists>b'\<in>set ?bs. eid b = eid b' \<and> \<not> zero_sized b')"
      proof
        assume "\<exists>b'\<in>set ?bs. eid b = eid b' \<and> \<not> zero_sized b'"
        then obtain b' where b': "b' \<in> set ?bs" "eid b = eid b'" "\<not> zero_sized b'" by blast
        from identity b b'(1,2) have "b = b'" by (auto simp: inj_on_def)
        with z b'(3) show False by simp
      qed
      with z show "map_of (shieldedButtons once) (eid b) = None"
        unfolding once fold_shield_step_has by blast
    qed
    from cons visible keep placed zero show ?thesis by blast
  qed
  from idem handled rest show ?thesis by simp
qed

text \<open>
  The item page, first with nothing shielded and no address handled, then the same page
  as the handled address.
\<close>

theorem shielding_idempotent_witness:
  "shieldPurchaseButtons item_page (shieldPurchaseButtons item_page idle) =
     shieldPurchaseButtons item_page idle
   \<and> (\<exists>sh. map_of (shieldedButtons
                      (shieldPurchaseButtons item_page (shieldPurchaseButtons item_page idle)))
               (eid buy_button) = Some sh
            \<and> count_list (body_shields
                  (shieldPurchaseButtons item_page (shieldPurchaseButtons item_page idle)))
                 (sid sh) = 1
            \<and> css_top sh = 400 \<and> css_left sh = 40)
   \<and> map_of (shieldedButtons
               (shieldPurchaseButtons item_page (shieldPurchaseButtons item_page idle)))
        (eid hidden_button) = None
   \<and> shieldPurchaseButtons item_page (idle\<lparr>handledUrl := Some (href item_page)\<rparr>) =
       idle\<lparr>handledUrl := Some (href item_page)\<rparr>"
proof -
  have u: "handledUrl idle \<noteq> Some (href item_page)" by (simp add: idle_consistent)
  have c: "shields_consistent idle" by (simp add: idle_consistent)
  have c': "shields_consistent (idle\<lparr>handledUrl := Some (href item_page)\<rparr>)"
    using c by (simp add: shields_consistent_def)
  have i: "inj_on eid (set (findPurchaseButtons item_page))"
    using example_buttons by (auto simp: item_page_buttons inj_on_def)
  have n: "map_of (shieldedButtons idle) (eid hidden_button) = None" by (simp add: idle_def)
  note T = shielding_idempotent [OF c i]
  note U = T [THEN conjunct2, THEN conjunct2, THEN mp, OF u]
  have b1: "buy_button \<in> set (findPurchaseButtons item_page)"
    and b2: "hidden_button \<in> set (findPurchaseButtons item_page)"
    by (simp_all add: item_page_buttons)
  note 1 = T [THEN conjunct1]
  note 2 = U [THEN conjunct2, THEN conjunct1, THEN bspec, OF b1, THEN mp]
  note 3 = U [THEN conjunct2, THEN conjunct2, THEN conjunct2, THEN conjunct2, THEN bspec,
      OF b2, THEN mp]
  note 5 = U [THEN conjunct2, THEN conjunct2, THEN conjunct2, THEN conjunct1, THEN bspec,
      OF b1, rule_format]
  from example_buttons have v: "\<not> zero_sized buy_button" and z: "zero_sized hidden_button"
    by simp_all
  have 4: "shieldPurchaseButtons item_page (idle\<lparr>handledUrl := Some (href item_page)\<rparr>) =
       idle\<lparr>handledUrl := Some (href item_page)\<rparr>"
    using shielding_idempotent [OF c' i, THEN conjunct2, THEN conjunct1] by simp
  from 2 [OF v] obtain sh where sh:
    "map_of (shieldedButtons
              (shieldPurchaseButtons item_page (shieldPurchaseButtons item_page idle)))
       (eid buy_button) = Some sh"
    "count_list (body_shields
        (shieldPurchaseButtons item_page (shieldPurchaseButtons item_page idle))) (sid sh) = 1"
    by blast
  have "css_top (positioned item_page buy_button sh) = 400
      \<and> css_left (positioned item_page buy_button sh) = 40"
    using v by (simp add: positioned_def buy_button_def el0_def item_page_def)
  with 5 [OF sh(1)] have "css_top sh = 400 \<and> css_left sh = 40" by simp
  with sh 1 3 [OF conjI [OF z n]] 4 show ?thesis by blast
qed

text \<open>
  Claim C4, as stated, on the handled address: the page has a matched button with a
  non-empty bounding box, and after two runs of \<open>shieldPurchaseButtons\<close> no shield is
  registered for it.
\<close>

theorem shielding_on_handled_url_counterexample:
  "buy_button \<in> set (findPurchaseButtons item_page)
   \<and> \<not> zero_sized buy_button
   \<and> map_of (shieldedButtons
               (shieldPurchaseButtons item_page
                  (shieldPurchaseButtons item_page
                     (idle\<lparr>handledUrl := Some (href item_page)\<rparr>))))
        (eid buy_button) = None"
  by (simp add: item_page_buttons example_buttons shieldPurchaseButtons_def idle_def)

section \<open>Suppression\<close>

lemma removeAllShields_frame:
  "shieldedButtons (removeAllShields s) = []
   \<and> handledUrl (removeAllShields s) = handledUrl s
   \<and> overlayActive (removeAllShields s) = overlayActive s
   \<and> pendingButton (removeAllShields s) = pendingButton s
   \<and> lastAutoDetection (removeAllShields s) = lastAutoDetection s
   \<and> lastUrl (removeAllShields s) = lastUrl s
   \<and> proceedUntil (removeAllShields s) = proceedUntil s
   \<and> next_sid (removeAllShields s) = next_sid s
   \<and> sent (removeAllShields s) = sent s
   \<and> clicks (removeAllShields s) = clicks s"
  by (simp add: removeAllShields_def)

lemma fold_removeAll:
  "fold (\<lambda>(b, sh) bd. removeAll (sid sh) bd) al bd =
     filter (\<lambda>i. i \<notin> set (map (sid \<circ> snd) al)) bd"
proof (induction al arbitrary: bd)
  case Nil
  show ?case by simp
next
  case (Cons a al)
  obtain b sh where a: "a = (b, sh)" by (cases a)
  have "fold (\<lambda>(b, sh) bd. removeAll (sid sh) bd) (a # al) bd =
        fold (\<lambda>(b, sh) bd. removeAll (sid sh) bd) al (removeAll (sid sh) bd)"
    by (simp add: a)
  also have "\<dots> = filter (\<lambda>i. i \<notin> set (map (sid \<circ> snd) al)) (removeAll (sid sh) bd)"
    by (rule Cons.IH)
  also have "\<dots> = filter (\<lambda>i. i \<notin> set (map (sid \<circ> snd) (a # al))) bd"
    by (induction bd) (auto simp: a)
  finally show ?case .
qed

lemma removeAllShields_body:
  "shields_consistent s \<Longrightarrow> body_shields (removeAllShields s) = []"
  by (simp add: removeAllShields_def fold_removeAll shields_consistent_def)

lemma autoDetect_frame:
  "proceedUntil (autoDetectPurchaseIntent t p s) = proceedUntil s
   \<and> handledUrl (autoDetectPurchaseIntent t p s) = handledUrl s
   \<and> overlayActive (autoDetectPurchaseIntent t p s) = overlayActive s
   \<and> shieldedButtons (autoDetectPurchaseIntent t p s) = shieldedButtons s
   \<and> body_shields (autoDetectPurchaseIntent t p s) = body_shields s
   \<and> next_sid (autoDetectPurchaseIntent t p s) = next_sid s
   \<and> pendingButton (autoDetectPurchaseIntent t p s) = pendingButton s
   \<and> lastUrl (autoDetectPurchaseIntent t p s) = lastUrl s
   \<and> clicks (autoDetectPurchaseIntent t p s) = clicks s"
  by (simp add: autoDetectPurchaseIntent_def)

lemma autoDetect_suppressed:
  "isSuppressed t s \<Longrightarrow> autoDetectPurchaseIntent t p s = s"
  by (simp add: autoDetectPurchaseIntent_def)

lemma initial_frame:
  "proceedUntil (initial t p session) = session
   \<and> handledUrl (initial t p session) = None
   \<and> overlayActive (initial t p session) = False
   \<and> clicks (initial t p session) = []
   \<and> lastUrl (initial t p session) = href p"
  by (simp add: initial_def shieldPurchaseButtons_frame autoDetect_frame)

subsection \<open>The bookkeeping along a run\<close>

text \<open>
  The bookkeeping of the shields is in order in the script as loaded and stays so under
  every handler.
\<close>

lemma removeAllShields_consistent:
  "shields_consistent s \<Longrightarrow> shields_consistent (removeAllShields s)"
  using removeAllShields_body [of s]
  by (simp add: shields_consistent_def removeAllShields_frame)

lemma autoDetect_consistent:
  "shields_consistent s \<Longrightarrow> shields_consistent (autoDetectPurchaseIntent t p s)"
  by (simp add: shields_consistent_def autoDetect_frame)

lemma step_consistent:
  assumes "shields_consistent s"
  shows "shields_consistent (step ev s)"
proof -
  obtain now p e where ev: "ev = (now, p, e)" by (cases ev)
  have field: "\<And>s f. shields_consistent s \<Longrightarrow>
      shieldedButtons (f s) = shieldedButtons s \<Longrightarrow> body_shields (f s) = body_shields s \<Longrightarrow>
      next_sid (f s) = next_sid s \<Longrightarrow> shields_consistent (f s)"
    by (simp add: shields_consistent_def)
  note rm = removeAllShields_consistent
  show ?thesis
  proof (cases e)
    case Mutation
    with assms show ?thesis
      by (simp add: ev on_mutation_def shieldPurchaseButtons_consistent autoDetect_consistent)
  next
    case UrlPoll
    have "shields_consistent (s\<lparr>lastUrl := href p, handledUrl := None\<rparr>)"
      using assms by (simp add: shields_consistent_def)
    then have "shields_consistent (removeAllShields (s\<lparr>lastUrl := href p, handledUrl := None\<rparr>))"
      by (rule rm)
    with assms show ?thesis
      by (simp add: ev UrlPoll url_poll_def Let_def shieldPurchaseButtons_consistent
            autoDetect_consistent)
  next
    case (ShieldClick b)
    have "shields_consistent ((removeAllShields s)\<lparr>clicks := clicks (removeAllShields s) @ [eid b]\<rparr>)"
      using rm [OF assms] by (simp add: shields_consistent_def)
    moreover have "shields_consistent (handleShieldClick p b s)"
      using assms by (simp add: shields_consistent_def handleShieldClick_def)
    ultimately show ?thesis
      using assms by (simp add: ev ShieldClick shield_click_def Let_def)
  next
    case (ShieldClickReply b r)
    have ct: "shields_consistent (click_through b s)"
      using rm [OF assms] by (simp add: shields_consistent_def click_through_def Let_def)
    have "shields_consistent (s\<lparr>handledUrl := Some (href p)\<rparr>)"
      using assms by (simp add: shields_consistent_def)
    with ct show ?thesis
      by (simp add: ev ShieldClickReply shield_click_reply_def split: option.splits)
  next
    case (AutoDetectReply r)
    have "shields_consistent (s\<lparr>handledUrl := Some (href p)\<rparr>)"
      using assms by (simp add: shields_consistent_def)
    with assms show ?thesis
      by (simp add: ev AutoDetectReply auto_detect_reply_def split: option.splits)
  next
    case (TabMessage m)
    have a: "shields_consistent (s\<lparr>overlayActive := True\<rparr>)"
      using assms by (simp add: shields_consistent_def)
    have "shields_consistent (setSuppression now (s\<lparr>overlayActive := False\<rparr>))"
      using assms by (simp add: shields_consistent_def setSuppression_def)
    then have "shields_consistent
        (removeAllShields (setSuppression now (s\<lparr>overlayActive := False\<rparr>)))"
      by (rule rm)
    then have b: "\<And>x y. shields_consistent
        ((removeAllShields (setSuppression now (s\<lparr>overlayActive := False\<rparr>)))
           \<lparr>handledUrl := Some (href p), clicks := x, pendingButton := y\<rparr>)"
      and b': "shields_consistent
        ((removeAllShields (setSuppression now (s\<lparr>overlayActive := False\<rparr>)))
           \<lparr>handledUrl := Some (href p)\<rparr>)"
      by (simp_all add: shields_consistent_def)
    have "shields_consistent (s\<lparr>overlayActive := False\<rparr>)"
      using assms by (simp add: shields_consistent_def)
    then have "shields_consistent (removeAllShields (s\<lparr>overlayActive := False\<rparr>))"
      by (rule rm)
    then have c: "shields_consistent
        ((removeAllShields (s\<lparr>overlayActive := False\<rparr>))
           \<lparr>handledUrl := Some (href p), pendingButton := None\<rparr>)"
      by (simp add: shields_consistent_def)
    show ?thesis
      using assms a b b' c
      by (cases m) (simp_all add: ev TabMessage onMessage_def Let_def split: option.splits)
  qed
qed

lemma run_consistent:
  "shields_consistent s \<Longrightarrow> shields_consistent (run evs s)"
  unfolding run_def by (induction evs arbitrary: s) (simp_all add: step_consistent)

lemma initial_consistent: "shields_consistent (initial t p session)"
proof -
  have "shields_consistent
      \<lparr>handledUrl = None, overlayActive = False, pendingButton = None,
       shieldedButtons = [], body_shields = [], next_sid = 0,
       lastAutoDetection = 0, lastUrl = href p, proceedUntil = session,
       sent = [], clicks = []\<rparr>"
    by (simp add: shields_consistent_def)
  then show ?thesis
    by (simp add: initial_def Let_def shieldPurchaseButtons_consistent autoDetect_consistent)
qed

subsection \<open>The window\<close>

text \<open>
  Claim C5, as the code has it. \<open>PROCEED_WITH_PURCHASE\<close> at time \<open>t0\<close> records the expiry
  \<open>t0 + 30000\<close> in the session storage. While the storage holds it: a shield click made
  with an overlay active or on the handled address changes nothing at any time, inside
  the window or outside: the button is not clicked, the shields stay and no message is
  sent; at every time before the expiry an automatic detection does nothing and a shield
  click sends no message; before the expiry a shield click made while no overlay is
  active and the address is not the handled one removes the shields and clicks the button
  under the shield. From the expiry on the script is not suppressed: such a shield click
  sends \<open>PURCHASE_DETECTED\<close> with confidence 100 and clicks nothing, and an automatic
  detection outside the debounce window on an address not handled sends one when the
  total is at least 60.
\<close>

theorem suppression_window:
  fixes s s2 :: detector and p q :: page and b :: element and t0 t :: int
  defines "s1 \<equiv> onMessage t0 p PROCEED_WITH_PURCHASE s"
  defines "free \<equiv> \<not> overlayActive s2 \<and> handledUrl s2 \<noteq> Some (href q)"
  assumes session: "proceedUntil s2 = proceedUntil s1"
  shows "proceedUntil s1 = Some (t0 + 30000)
   \<and> (\<not> free \<longrightarrow> shield_click t q b s2 = s2)
   \<and> (t < t0 + 30000 \<longrightarrow> autoDetectPurchaseIntent t q s2 = s2)
   \<and> (t < t0 + 30000 \<longrightarrow> sent (shield_click t q b s2) = sent s2)
   \<and> (t < t0 + 30000 \<and> free \<longrightarrow>
         shieldedButtons (shield_click t q b s2) = []
         \<and> (shields_consistent s2 \<longrightarrow> body_shields (shield_click t q b s2) = [])
         \<and> clicks (shield_click t q b s2) = clicks s2 @ [eid b])
   \<and> (t \<ge> t0 + 30000 \<longrightarrow> \<not> isSuppressed t s2)
   \<and> (t \<ge> t0 + 30000 \<and> free \<longrightarrow>
         sent (shield_click t q b s2) =
           sent s2 @ [\<lparr>msg_product = extractProductInfo q, msg_site = hostname q,
                        msg_confidence = 100\<rparr>]
         \<and> clicks (shield_click t q b s2) = clicks s2)
   \<and> (t \<ge> t0 + 30000 \<and> handledUrl s2 \<noteq> Some (href q)
        \<and> t - lastAutoDetection s2 \<ge> 2000 \<and> totalScore q \<ge> 60 \<longrightarrow>
         sent (autoDetectPurchaseIntent t q s2) =
           sent s2 @ [\<lparr>msg_product = extractProductInfo q, msg_site = hostname q,
                        msg_confidence = totalScore q\<rparr>])"
proof -
  have until1: "proceedUntil s1 = Some (t0 + 30000)"
    by (simp add: s1_def onMessage_def setSuppression_def SUPPRESSION_MS_def Let_def
          removeAllShields_frame split: option.splits)
  with session have until: "proceedUntil s2 = Some (t0 + 30000)" by simp
  have sup: "\<And>u. isSuppressed u s2 \<longleftrightarrow> u < t0 + 30000"
    by (simp add: isSuppressed_def until)
  have a: "t < t0 + 30000 \<longrightarrow> autoDetectPurchaseIntent t q s2 = s2"
    by (simp add: autoDetect_suppressed sup)
  have g: "\<not> free \<longrightarrow> shield_click t q b s2 = s2"
    by (auto simp: shield_click_def free_def)
  have b: "t < t0 + 30000 \<longrightarrow> sent (shield_click t q b s2) = sent s2"
    by (simp add: shield_click_def sup removeAllShields_frame Let_def)
  have c: "t < t0 + 30000 \<and> free \<longrightarrow>
         shieldedButtons (shield_click t q b s2) = []
         \<and> (shields_consistent s2 \<longrightarrow> body_shields (shield_click t q b s2) = [])
         \<and> clicks (shield_click t q b s2) = clicks s2 @ [eid b]"
    by (simp add: shield_click_def sup free_def removeAllShields_frame removeAllShields_body
          Let_def)
  have d: "t \<ge> t0 + 30000 \<longrightarrow> \<not> isSuppressed t s2"
    by (simp add: sup)
  have e: "t \<ge> t0 + 30000 \<and> free \<longrightarrow>
         sent (shield_click t q b s2) =
           sent s2 @ [\<lparr>msg_product = extractProductInfo q, msg_site = hostname q,
                        msg_confidence = 100\<rparr>]
         \<and> clicks (shield_click t q b s2) = clicks s2"
    by (simp add: shield_click_def sup free_def handleShieldClick_def)
  have f: "t \<ge> t0 + 30000 \<and> handledUrl s2 \<noteq> Some (href q)
        \<and> t - lastAutoDetection s2 \<ge> 2000 \<and> totalScore q \<ge> 60 \<longrightarrow>
         sent (autoDetectPurchaseIntent t q s2) =
           sent s2 @ [\<lparr>msg_product = extractProductInfo q, msg_site = hostname q,
                        msg_confidence = totalScore q\<rparr>]"
    by (simp add: autoDetectPurchaseIntent_def sup AUTO_DETECT_DEBOUNCE_MS_def)
  from until1 g a b c d e f show ?thesis by blast
qed

text \<open>
  The script loaded into the next page one second after the user has proceeded; and the
  same state with an overlay active.
\<close>

theorem suppression_window_witness:
  "proceedUntil (onMessage 0 item_page PROCEED_WITH_PURCHASE idle) = Some 30000
   \<and> clicks (shield_click 2000 item_page buy_button (initial 1000 item_page (Some 30000)))
       = [eid buy_button]
   \<and> shieldedButtons (shield_click 2000 item_page buy_button
                        (initial 1000 item_page (Some 30000))) = []
   \<and> sent (shield_click 2000 item_page buy_button (initial 1000 item_page (Some 30000)))
       = sent (initial 1000 item_page (Some 30000))
   \<and> length (sent (shield_click 30000 item_page buy_button
                      (initial 1000 item_page (Some 30000))))
       = Suc (length (sent (initial 1000 item_page (Some 30000))))
   \<and> shield_click 2000 item_page buy_button
         ((initial 1000 item_page (Some 30000))\<lparr>overlayActive := True\<rparr>)
       = (initial 1000 item_page (Some 30000))\<lparr>overlayActive := True\<rparr>"
proof -
  let ?s2 = "initial 1000 item_page (Some 30000)"
  let ?s3 = "?s2\<lparr>overlayActive := True\<rparr>"
  note T = suppression_window [where s = idle and ?t0.0 = 0 and p = item_page
      and ?s2.0 = ?s2 and q = item_page and b = buy_button]
  note G = suppression_window [where s = idle and ?t0.0 = 0 and p = item_page
      and ?s2.0 = ?s3 and q = item_page and b = buy_button]
  have u: "proceedUntil (onMessage 0 item_page PROCEED_WITH_PURCHASE idle) = Some 30000"
    by (simp add: onMessage_def setSuppression_def SUPPRESSION_MS_def Let_def
          removeAllShields_frame split: option.splits)
  have session: "proceedUntil ?s2 = proceedUntil (onMessage 0 item_page PROCEED_WITH_PURCHASE idle)"
    by (simp add: u initial_frame)
  have session3: "proceedUntil ?s3 = proceedUntil (onMessage 0 item_page PROCEED_WITH_PURCHASE idle)"
    by (simp add: u initial_frame)
  have free: "\<not> overlayActive ?s2 \<and> handledUrl ?s2 \<noteq> Some (href item_page)"
    by (simp add: initial_frame)
  from T [OF session, of 2000] free
  have early: "sent (shield_click 2000 item_page buy_button ?s2) = sent ?s2
      \<and> shieldedButtons (shield_click 2000 item_page buy_button ?s2) = []
      \<and> clicks (shield_click 2000 item_page buy_button ?s2) = clicks ?s2 @ [eid buy_button]"
    by simp
  from T [OF session, of 30000] free
  have late: "sent (shield_click 30000 item_page buy_button ?s2) =
      sent ?s2 @ [\<lparr>msg_product = extractProductInfo item_page, msg_site = hostname item_page,
                   msg_confidence = 100\<rparr>]"
    by simp
  from G [OF session3, of 2000, THEN conjunct2, THEN conjunct1]
  have guarded: "shield_click 2000 item_page buy_button ?s3 = ?s3"
    by simp
  from u early late guarded show ?thesis by (simp add: initial_frame)
qed

section \<open>Runs of the content script\<close>

lemma item_url_score: "getUrlScore item_page = 0"
  by (simp del: match_here.simps search.simps list_ex_Cons_iff
        add: getUrlScore_def CHECKOUT_URL_PATTERNS_def test_def item_page_def
          match_eval char_eval)

lemma item_page_queries:
  "querySelectorAll item_page sel_score_buttons = []
   \<and> querySelectorAll item_page sel_price_display = []
   \<and> querySelectorAll item_page sel_payment_input = []
   \<and> querySelectorAll item_page sel_order_summary = []"
  by (simp add: item_page_def selector_eval)

lemma item_page_total: "totalScore item_page = 0"
  using item_page_queries
  by (simp add: totalScore_def item_url_score getButtonScore_def getDomScore_eq
        querySelector_def)

lemma step2_url_score: "getUrlScore checkout_page_step2 = 30"
  by (simp del: match_here.simps search.simps list_ex_Cons_iff
        add: getUrlScore_def CHECKOUT_URL_PATTERNS_def test_def checkout_page_step2_def
          checkout_page_def match_eval char_eval)

lemma checkout_page_step2_queries:
  "querySelectorAll checkout_page_step2 sel = querySelectorAll checkout_page sel"
  by (simp add: checkout_page_step2_def)

lemma checkout_page_step2_total: "totalScore checkout_page_step2 = 100"
  using checkout_page_queries buy_button_is_purchase
  by (simp add: totalScore_def step2_url_score getButtonScore_def getDomScore_eq
        querySelector_def checkout_page_step2_queries)

lemma example_hrefs:
  "href item_page = ''https://a.io/item''
   \<and> href item_page_step2 = ''https://a.io/item#2''
   \<and> href checkout_page = ''https://a.io/Checkout''
   \<and> href checkout_page_step2 = ''https://a.io/Checkout#pay''"
  by (simp add: item_page_def item_page_step2_def checkout_page_def checkout_page_step2_def)

lemma item_initial:
  "initial 5000 item_page None =
     idle\<lparr>lastUrl := ''https://a.io/item'',
          shieldedButtons :=
            [(1, \<lparr>sid = 0, css_display = [], css_top = 400, css_left = 40, css_width = 80,
                  css_height = 20\<rparr>)],
          body_shields := [0],
          next_sid := 1\<rparr>"
  by (simp add: initial_def autoDetectPurchaseIntent_def isSuppressed_def item_page_total
        AUTO_DETECT_DEBOUNCE_MS_def shieldPurchaseButtons_def item_page_buttons
        shield_step_cases example_hrefs idle_def)
     (simp add: buy_button_def hidden_button_def el0_def zero_sized_def item_page_def)

lemma after_double_click_state:
  "overlayActive after_double_click
   \<and> proceedUntil after_double_click = Some 39000
   \<and> handledUrl after_double_click = None
   \<and> clicks after_double_click = [1]
   \<and> length (sent after_double_click) = 2
   \<and> map fst (shieldedButtons after_double_click) = [1]"
  unfolding after_double_click_def double_click_run_def run_def item_initial
  by (simp add: shield_click_def shield_click_reply_def onMessage_def url_poll_def
        handleShieldClick_def isSuppressed_def setSuppression_def SUPPRESSION_MS_def
        removeAllShields_def autoDetectPurchaseIntent_def shieldPurchaseButtons_def
        item_page_step2_buttons shield_step_cases example_hrefs idle_def Let_def
        example_buttons)

text \<open>
  Claim C5, as stated, after the run \<open>double_click_run\<close>: the suppression window recorded
  at 9000 ms is open until 39000 ms, a shield lies over the button, and the click on it at
  11000 ms changes nothing: no shield is removed and the button is not clicked, because
  the overlay of the second message is active.
\<close>

theorem swallowed_click_counterexample:
  "proceedUntil after_double_click = Some 39000
   \<and> isSuppressed 11000 after_double_click
   \<and> map fst (shieldedButtons after_double_click) = [eid buy_button]
   \<and> clicks after_double_click = [eid buy_button]
   \<and> shield_click 11000 item_page_step2 buy_button after_double_click = after_double_click"
  using after_double_click_state
  by (simp add: isSuppressed_def shield_click_def example_buttons)

section \<open>One prompt at a time\<close>

lemma overlay_shown_state:
  "overlayActive overlay_shown
   \<and> handledUrl overlay_shown = Some (href checkout_page)
   \<and> proceedUntil overlay_shown = None
   \<and> lastAutoDetection overlay_shown = 5000
   \<and> lastUrl overlay_shown = href checkout_page
   \<and> length (sent overlay_shown) = 1"
  unfolding overlay_shown_def overlay_shown_run_def run_def
  by (simp add: initial_def onMessage_def auto_detect_reply_def shieldPurchaseButtons_frame
        autoDetectPurchaseIntent_def isSuppressed_def AUTO_DETECT_DEBOUNCE_MS_def
        checkout_page_total)

text \<open>The two guards the handlers do have.\<close>

lemma shield_click_guarded:
  "overlayActive s \<or> handledUrl s = Some (href p) \<Longrightarrow> shield_click now p b s = s"
  by (simp add: shield_click_def)

lemma auto_detect_guarded:
  "handledUrl s = Some (href p) \<Longrightarrow> autoDetectPurchaseIntent now p s = s"
  by (simp add: autoDetectPurchaseIntent_def)

text \<open>
  Claim C10. The claim is that no \<open>PURCHASE_DETECTED\<close> message is sent while the overlay
  is active. The click handler of a shield checks the flag \<open>overlayActive\<close>;
  \<open>autoDetectPurchaseIntent\<close> checks the handled address only. After the run
  \<open>overlay_shown_run\<close> the overlay is active and one message has been sent; when the
  poller then sees a new address on a page that scores 100, a second message is sent with
  the overlay still active.
\<close>

theorem auto_detect_while_overlay_active:
  "overlayActive overlay_shown
   \<and> length (sent overlay_shown) = 1
   \<and> overlayActive (step (9000, checkout_page_step2, UrlPoll) overlay_shown)
   \<and> length (sent (step (9000, checkout_page_step2, UrlPoll) overlay_shown)) = 2
   \<and> map msg_confidence
        (drop 1 (sent (step (9000, checkout_page_step2, UrlPoll) overlay_shown))) = [100]"
  using overlay_shown_state
  by (simp add: url_poll_def shieldPurchaseButtons_frame autoDetectPurchaseIntent_def
        removeAllShields_frame isSuppressed_def AUTO_DETECT_DEBOUNCE_MS_def
        checkout_page_step2_total example_hrefs Let_def)

end
